theory Spec2Isabelle
  imports Main "HOL-Library.Product_Lexorder"
begin

section \<open>Values, identifiers and stored documents\<close>

text \<open>
  The file service (\<^verbatim>\<open>apps/backend/src/app/services/file.service.ts\<close>) keeps its
  records in the \<^verbatim>\<open>fs.files\<close> collection of a GridFS bucket. A field of a stored
  document, and a value of the open-ended \<^verbatim>\<open>metadata\<close> object, is one of the scalar
  values below (nested objects and arrays are outside this model).
\<close>

datatype jsval = JNull | JBool bool | JNum int | JStr string | JDate int | JOid nat

text \<open>JavaScript truthiness, as used by \<^verbatim>\<open>||\<close> and by \<^verbatim>\<open>if (x)\<close>.\<close>

fun truthy :: "jsval \<Rightarrow> bool" where
  "truthy JNull = False"
| "truthy (JBool b) = b"
| "truthy (JNum n) = (n \<noteq> 0)"
| "truthy (JStr s) = (s \<noteq> [])"
| "truthy (JDate t) = True"
| "truthy (JOid i) = True"

text \<open>\<^verbatim>\<open>x || y\<close> where \<^verbatim>\<open>x\<close> may be undefined.\<close>

definition js_or :: "jsval option \<Rightarrow> jsval \<Rightarrow> jsval" where
  "js_or x y = (case x of None \<Rightarrow> y | Some v \<Rightarrow> if truthy v then v else y)"

type_synonym meta = "string \<rightharpoonup> jsval"

text \<open>\<^verbatim>\<open>{...m}\<close> for an object that may be undefined.\<close>

definition spread :: "meta option \<Rightarrow> meta" where
  "spread m = (case m of None \<Rightarrow> Map.empty | Some x \<Rightarrow> x)"

text \<open>\<^verbatim>\<open>m?.k\<close>\<close>

definition opt_get :: "meta option \<Rightarrow> string \<Rightarrow> jsval option" where
  "opt_get m k = (case m of None \<Rightarrow> None | Some x \<Rightarrow> x k)"

subsection \<open>ObjectId\<close>

text \<open>
  An ObjectId is a 12-byte value, here the natural number below \<open>16 ^ 24\<close> it denotes.
  \<^verbatim>\<open>new ObjectId(s)\<close> is modelled for its documented string form, 24 hexadecimal
  characters of either case; on any other string it throws. \<^verbatim>\<open>toString()\<close> prints 24
  lower-case hexadecimal digits.
\<close>

definition hex_digit :: "nat \<Rightarrow> char" where
  "hex_digit d = ''0123456789abcdef'' ! d"

definition hex_value :: "char \<Rightarrow> nat option" where
  "hex_value c =
     (let n = (of_char c :: nat) in
      if 48 \<le> n \<and> n \<le> 57 then Some (n - 48)
      else if 97 \<le> n \<and> n \<le> 102 then Some (n - 87)
      else if 65 \<le> n \<and> n \<le> 70 then Some (n - 55)
      else None)"

fun to_hex :: "nat \<Rightarrow> nat \<Rightarrow> string" where
  "to_hex 0 n = []"
| "to_hex (Suc k) n = to_hex k (n div 16) @ [hex_digit (n mod 16)]"

fun from_hex :: "nat \<Rightarrow> string \<Rightarrow> nat option" where
  "from_hex acc [] = Some acc"
| "from_hex acc (c # cs) =
     (case hex_value c of None \<Rightarrow> None | Some d \<Rightarrow> from_hex (16 * acc + d) cs)"

definition ObjectId :: "string \<Rightarrow> nat option" where
  "ObjectId s = (if length s = 24 then from_hex 0 s else None)"

definition toString :: "nat \<Rightarrow> string" where
  "toString i = to_hex 24 i"


subsection \<open>Strings and the search pattern\<close>

text \<open>
  A string is a list of characters with codes below 256, read as the code units of the
  JavaScript string (the Latin-1 range of Unicode); text with characters beyond that
  range is outside this model. In this range the white space and line terminator
  characters that \<^verbatim>\<open>trim()\<close> strips are the codes 9 to 13, 32 and 160 (the no-break
  space), and the letters that the flag \<^verbatim>\<open>i\<close> folds are A to Z and the accented
  capitals 192 to 222 without the multiplication sign 215, each 32 below its small
  letter.
\<close>

definition is_space :: "char \<Rightarrow> bool" where
  "is_space c = (let n = (of_char c :: nat) in (9 \<le> n \<and> n \<le> 13) \<or> n = 32 \<or> n = 160)"

text \<open>\<^verbatim>\<open>s.trim()\<close>\<close>

definition trim :: "string \<Rightarrow> string" where
  "trim s = rev (dropWhile is_space (rev (dropWhile is_space s)))"

definition to_lower :: "char \<Rightarrow> char" where
  "to_lower c =
     (let n = (of_char c :: nat) in
      if (65 \<le> n \<and> n \<le> 90) \<or> (192 \<le> n \<and> n \<le> 222 \<and> n \<noteq> 215)
      then char_of (n + 32) else c)"

text \<open>
  \<open>escapeRegex\<close> replaces every character of the class of regular expression
  operators (dot, star, plus, question mark, caret, dollar, braces, parentheses, bar,
  square brackets and backslash) by a backslash followed by that character.
\<close>

definition regex_special :: "char \<Rightarrow> bool" where
  "regex_special c = (c \<in> set (''.*+?^${}()|[]'' @ [CHR 0x5C]))"

definition escapeRegex :: "string \<Rightarrow> string" where
  "escapeRegex input = concat (map (\<lambda>c. if regex_special c then [CHR 0x5C, c] else [c]) input)"

text \<open>
  A pattern built by \<open>escapeRegex\<close> consists of plain characters and of escaped
  characters; \<open>unescape\<close> reads the literal text such a pattern stands for, and
  \<open>regex_i_test p s\<close> is \<^verbatim>\<open>new RegExp(p, 'i').test(s)\<close> for these patterns: the
  literal occurs somewhere in \<open>s\<close>, letters compared without case.
\<close>

fun unescape :: "string \<Rightarrow> string" where
  "unescape [] = []"
| "unescape [c] = [c]"
| "unescape (c # d # cs) = (if c = CHR 0x5C then d # unescape cs else c # unescape (d # cs))"

fun is_prefix :: "string \<Rightarrow> string \<Rightarrow> bool" where
  "is_prefix [] ys = True"
| "is_prefix (x # xs) [] = False"
| "is_prefix (x # xs) (y # ys) = (x = y \<and> is_prefix xs ys)"

fun contains :: "string \<Rightarrow> string \<Rightarrow> bool" where
  "contains [] p = (p = [])"
| "contains (c # cs) p = (is_prefix p (c # cs) \<or> contains cs p)"

definition regex_i_test :: "string \<Rightarrow> string \<Rightarrow> bool" where
  "regex_i_test p s = contains (map to_lower s) (map to_lower (unescape p))"

subsection \<open>Documents and the store\<close>

text \<open>
  A document of \<^verbatim>\<open>fs.files\<close>: \<open>oid\<close> is \<^verbatim>\<open>_id\<close>, \<open>length_d\<close> is \<^verbatim>\<open>length\<close>.
  The store holds the documents in their natural order, the chunk records (one entry
  per file, the bytes of all its chunks together) and the next identifier the driver
  hands out.
\<close>

record doc =
  oid :: nat
  filename :: string
  length_d :: nat
  uploadDate :: int
  metadata :: "meta option"

type_synonym bytes = "nat list"

record store =
  files :: "doc list"
  chunks :: "(nat \<times> bytes) list"
  next_oid :: nat

datatype field = F_id | F_filename | F_length | F_uploadDate | F_meta string

fun field_value :: "doc \<Rightarrow> field \<Rightarrow> jsval option" where
  "field_value d F_id = Some (JOid (oid d))"
| "field_value d F_filename = Some (JStr (filename d))"
| "field_value d F_length = Some (JNum (int (length_d d)))"
| "field_value d F_uploadDate = Some (JDate (uploadDate d))"
| "field_value d (F_meta k) = opt_get (metadata d) k"

subsection \<open>The engine's comparison order, queries and sorting\<close>

text \<open>
  Values of different types sort by type (null, numbers, strings, ObjectId, booleans,
  dates); a missing field sorts as null. The query operators \<^verbatim>\<open>$gt\<close> and \<^verbatim>\<open>$lt\<close>
  compare only values of the type of their operand, so a missing field matches neither.
\<close>

fun bson_rank :: "jsval \<Rightarrow> nat" where
  "bson_rank JNull = 0"
| "bson_rank (JNum n) = 1"
| "bson_rank (JStr s) = 2"
| "bson_rank (JOid i) = 3"
| "bson_rank (JBool b) = 4"
| "bson_rank (JDate t) = 5"

fun str_lt :: "string \<Rightarrow> string \<Rightarrow> bool" where
  "str_lt [] [] = False"
| "str_lt [] (y # ys) = True"
| "str_lt (x # xs) [] = False"
| "str_lt (x # xs) (y # ys) =
     ((of_char x :: nat) < of_char y \<or> (x = y \<and> str_lt xs ys))"

fun same_lt :: "jsval \<Rightarrow> jsval \<Rightarrow> bool" where
  "same_lt (JNum a) (JNum b) = (a < b)"
| "same_lt (JStr a) (JStr b) = str_lt a b"
| "same_lt (JOid a) (JOid b) = (a < b)"
| "same_lt (JBool a) (JBool b) = (\<not> a \<and> b)"
| "same_lt (JDate a) (JDate b) = (a < b)"
| "same_lt _ _ = False"

definition bson_lt :: "jsval \<Rightarrow> jsval \<Rightarrow> bool" where
  "bson_lt a b = (bson_rank a < bson_rank b \<or> (bson_rank a = bson_rank b \<and> same_lt a b))"

datatype cond = Eq jsval | Gt jsval | Lt jsval | Regex_i string

fun holds :: "jsval option \<Rightarrow> cond \<Rightarrow> bool" where
  "holds v (Eq w) = (case v of None \<Rightarrow> w = JNull | Some x \<Rightarrow> x = w)"
| "holds v (Gt w) = (case v of None \<Rightarrow> False | Some x \<Rightarrow> same_lt w x)"
| "holds v (Lt w) = (case v of None \<Rightarrow> False | Some x \<Rightarrow> same_lt x w)"
| "holds v (Regex_i p) = (case v of Some (JStr s) \<Rightarrow> regex_i_test p s | _ \<Rightarrow> False)"

text \<open>
  A filter object: the value of its \<^verbatim>\<open>$or\<close> key, when set (a list of clauses, each
  a conjunction of field conditions), and its other keys.
\<close>

type_synonym clause = "(field \<times> cond) list"

record query =
  q_or :: "clause list option"
  q_rest :: clause

definition matches_clause :: "doc \<Rightarrow> clause \<Rightarrow> bool" where
  "matches_clause d c = list_all (\<lambda>(f, p). holds (field_value d f) p) c"

definition matches :: "query \<Rightarrow> doc \<Rightarrow> bool" where
  "matches q d =
     ((case q_or q of None \<Rightarrow> True | Some cs \<Rightarrow> list_ex (matches_clause d) cs)
      \<and> matches_clause d (q_rest q))"

definition sort_value :: "doc \<Rightarrow> field \<Rightarrow> jsval" where
  "sort_value d f = (case field_value d f of None \<Rightarrow> JNull | Some v \<Rightarrow> v)"

text \<open>
  \<open>sort_le spec a b\<close>: under the sort specification (fields with direction 1 or -1, in
  order) document \<open>a\<close> may stand before document \<open>b\<close>.
\<close>

fun sort_le :: "(field \<times> int) list \<Rightarrow> doc \<Rightarrow> doc \<Rightarrow> bool" where
  "sort_le [] a b = True"
| "sort_le ((f, dir) # spec) a b =
     (if bson_lt (sort_value a f) (sort_value b f) then 0 < dir
      else if bson_lt (sort_value b f) (sort_value a f) then dir < 0
      else sort_le spec a b)"

fun insort_by :: "('a \<Rightarrow> 'a \<Rightarrow> bool) \<Rightarrow> 'a \<Rightarrow> 'a list \<Rightarrow> 'a list" where
  "insort_by le x [] = [x]"
| "insort_by le x (y # ys) = (if le x y then x # y # ys else y # insort_by le x ys)"

definition sort_by :: "('a \<Rightarrow> 'a \<Rightarrow> bool) \<Rightarrow> 'a list \<Rightarrow> 'a list" where
  "sort_by le xs = foldr (insort_by le) xs []"

text \<open>\<^verbatim>\<open>.limit(n)\<close>: a limit of 0 is no limit.\<close>

definition apply_limit :: "nat \<Rightarrow> 'a list \<Rightarrow> 'a list" where
  "apply_limit n xs = (if n = 0 then xs else take n xs)"

text \<open>\<^verbatim>\<open>find(q).sort(spec).skip(k).limit(n).toArray()\<close>\<close>

definition find_docs :: "store \<Rightarrow> query \<Rightarrow> (field \<times> int) list \<Rightarrow> nat \<Rightarrow> nat \<Rightarrow> doc list" where
  "find_docs s q spec k n =
     apply_limit n (drop k (sort_by (sort_le spec) (filter (matches q) (files s))))"

definition by_id :: "nat \<Rightarrow> query" where
  "by_id i = \<lparr>q_or = None, q_rest = [(F_id, Eq (JOid i))]\<rparr>"

definition findOne :: "store \<Rightarrow> query \<Rightarrow> doc option" where
  "findOne s q = (case filter (matches q) (files s) of [] \<Rightarrow> None | d # _ \<Rightarrow> Some d)"

definition countDocuments :: "store \<Rightarrow> query \<Rightarrow> nat" where
  "countDocuments s q = length (filter (matches q) (files s))"

fun update_one :: "(doc \<Rightarrow> bool) \<Rightarrow> (doc \<Rightarrow> doc) \<Rightarrow> doc list \<Rightarrow> doc list" where
  "update_one P f [] = []"
| "update_one P f (d # ds) = (if P d then f d # ds else d # update_one P f ds)"

fun delete_one :: "(doc \<Rightarrow> bool) \<Rightarrow> doc list \<Rightarrow> doc list" where
  "delete_one P [] = []"
| "delete_one P (d # ds) = (if P d then ds else d # delete_one P ds)"

text \<open>
  \<^verbatim>\<open>gridFSBucket.delete(id)\<close> removes the document and then the chunks of \<^verbatim>\<open>id\<close>.
  It throws when no document was removed, and when the engine fails: before anything
  was removed, or after the document was removed and before the chunks were. Whether
  and where the engine fails is an input of the model. The boolean is False when the
  call throws; the store is what the call leaves behind.
\<close>

datatype delete_fault = No_fault | Fails_untouched | Fails_after_document

definition bucket_delete :: "delete_fault \<Rightarrow> store \<Rightarrow> nat \<Rightarrow> bool \<times> store" where
  "bucket_delete fault s i =
     (case fault of
        No_fault \<Rightarrow>
          (list_ex (\<lambda>d. oid d = i) (files s),
           s\<lparr>files := delete_one (\<lambda>d. oid d = i) (files s),
             chunks := filter (\<lambda>c. fst c \<noteq> i) (chunks s)\<rparr>)
      | Fails_untouched \<Rightarrow> (False, s)
      | Fails_after_document \<Rightarrow>
          (False, s\<lparr>files := delete_one (\<lambda>d. oid d = i) (files s)\<rparr>))"

text \<open>
  A write stream opened by \<^verbatim>\<open>openUploadStream\<close> takes the next identifier; when it
  finishes, the chunk data and the document (with the engine's own time stamp) are in
  the store. A stream that fails has written no document; the chunk records it
  inserted before the error, holding the first \<open>k\<close> bytes, stay in the store.
\<close>

definition write_failed :: "store \<Rightarrow> bytes \<Rightarrow> nat \<Rightarrow> store" where
  "write_failed s data k =
     s\<lparr>chunks := (if k = 0 then chunks s else chunks s @ [(next_oid s, take k data)]),
       next_oid := Suc (next_oid s)\<rparr>"

definition write_file :: "store \<Rightarrow> string \<Rightarrow> meta \<Rightarrow> bytes \<Rightarrow> int \<Rightarrow> nat \<times> store" where
  "write_file s name m data t =
     (next_oid s,
      s\<lparr>files := files s @
           [\<lparr>oid = next_oid s, filename = name, length_d = length data, uploadDate = t,
             metadata = Some m\<rparr>],
        chunks := chunks s @ [(next_oid s, data)],
        next_oid := Suc (next_oid s)\<rparr>)"

section \<open>The file service\<close>

subsection \<open>Results, errors, configuration\<close>

text \<open>
  The two result interfaces. \<open>fi_mimetype\<close> and \<open>ur_mimetype\<close> are values, since the
  code fills them with whatever the stored metadata holds.
\<close>

record FileUploadResult =
  ur_id :: string
  ur_filename :: string
  ur_size :: nat
  ur_mimetype :: jsval
  ur_uploadDate :: int

record FileInfo =
  fi_id :: string
  fi_filename :: string
  fi_size :: nat
  fi_mimetype :: jsval
  fi_uploadDate :: int
  fi_metadata :: "meta option"

text \<open>
  The object literal that \<open>getFileInfo\<close>, \<open>listFiles\<close>, \<open>listFilesAdvanced\<close>,
  \<open>renameFile\<close> and \<open>getFilesByChatId\<close> each build from a stored document.
\<close>

definition toFileInfo :: "doc \<Rightarrow> FileInfo" where
  "toFileInfo file =
     \<lparr>fi_id = toString (oid file),
      fi_filename = filename file,
      fi_size = length_d file,
      fi_mimetype = js_or (opt_get (metadata file) ''mimetype'') (JStr ''application/octet-stream''),
      fi_uploadDate = uploadDate file,
      fi_metadata = metadata file\<rparr>"

text \<open>
  An exception is its class and its message; a message is kept as its template and the
  values put into it (the size and the limit of \<open>FileSizeExceeds\<close> are printed by
  \<open>formatBytes\<close>). \<open>BSONError\<close> is what \<^verbatim>\<open>new ObjectId(s)\<close> throws, \<open>TypeError\<close>
  what reading a property of null throws.
\<close>

datatype message =
    NoFileProvided
  | FileSizeExceeds nat nat
  | FileTypeNotAllowed string "string list"
  | UploadFailed string
  | FileNotFound string

datatype error = BadRequestException message | NotFoundException message | BSONError | TypeError

text \<open>
  \<^verbatim>\<open>environment.fileUpload\<close> and the digest \<^verbatim>\<open>createHash('sha256')\<close> (hexadecimal)
  come from outside the service.
\<close>

record env =
  maxFileSize :: nat
  acceptedTypes :: "string list"
  sha256 :: "bytes \<Rightarrow> string"

text \<open>The uploaded file object: \<open>size_f\<close> is its declared \<^verbatim>\<open>size\<close>.\<close>

record upfile =
  buffer :: bytes
  originalname :: string
  mimetype :: string
  size_f :: nat

subsection \<open>validateFile, uploadFile\<close>

definition validateFile :: "env \<Rightarrow> upfile \<Rightarrow> error option" where
  "validateFile e file =
     (if size_f file > maxFileSize e
      then Some (BadRequestException (FileSizeExceeds (size_f file) (maxFileSize e)))
      else if length (acceptedTypes e) > 0 \<and> mimetype file \<notin> set (acceptedTypes e)
      then Some (BadRequestException (FileTypeNotAllowed (mimetype file) (acceptedTypes e)))
      else None)"

definition dedup_query :: "string \<Rightarrow> string \<Rightarrow> query" where
  "dedup_query hash name =
     \<lparr>q_or = None, q_rest = [(F_meta ''hash'', Eq (JStr hash)), (F_filename, Eq (JStr name))]\<rparr>"

text \<open>
  The metadata object of a new upload. A key the caller did not give is undefined in
  the literal and stored as null; the caller's metadata is spread last.
\<close>

definition upload_metadata :: "upfile \<Rightarrow> string \<Rightarrow> int \<Rightarrow> meta option \<Rightarrow> meta" where
  "upload_metadata file hash t md =
     [''originalName'' \<mapsto> JStr (originalname file),
      ''mimetype'' \<mapsto> JStr (mimetype file),
      ''size'' \<mapsto> JNum (int (size_f file)),
      ''hash'' \<mapsto> JStr hash,
      ''uploadedAt'' \<mapsto> JDate t,
      ''chatId'' \<mapsto> (case opt_get md ''chatId'' of None \<Rightarrow> JNull | Some v \<Rightarrow> v),
      ''userId'' \<mapsto> (case opt_get md ''userId'' of None \<Rightarrow> JNull | Some v \<Rightarrow> v)]
     ++ spread md"

text \<open>
  \<open>uploadFile e clk err s file md\<close>: \<open>clk k\<close> is the \<open>k\<close>-th reading of the clock
  during the call; \<open>err\<close>, when the write stream fails, is the message of its error
  event and the number of bytes it had stored in chunk records by then. The result
  comes with the store after the call.
\<close>

definition uploadFile ::
  "env \<Rightarrow> (nat \<Rightarrow> int) \<Rightarrow> (string \<times> nat) option \<Rightarrow> store \<Rightarrow> upfile option \<Rightarrow> meta option
     \<Rightarrow> (error + FileUploadResult) \<times> store" where
  "uploadFile e clk err s file md =
     (case file of
        None \<Rightarrow> (Inl (BadRequestException NoFileProvided), s)
      | Some f \<Rightarrow>
          (case validateFile e f of
             Some ex \<Rightarrow> (Inl ex, s)
           | None \<Rightarrow>
               let hash = sha256 e (buffer f) in
               (case find_docs s (dedup_query hash (originalname f)) [] 0 1 of
                  dup # _ \<Rightarrow>
                    (Inr \<lparr>ur_id = toString (oid dup),
                          ur_filename = filename dup,
                          ur_size = length_d dup,
                          ur_mimetype = js_or (opt_get (metadata dup) ''mimetype'')
                                          (JStr ''application/octet-stream''),
                          ur_uploadDate = uploadDate dup\<rparr>, s)
                | [] \<Rightarrow>
                    (case err of
                       Some (m, k) \<Rightarrow>
                         (Inl (BadRequestException (UploadFailed m)),
                          write_failed s (buffer f) k)
                     | None \<Rightarrow>
                         let (i, s') = write_file s (originalname f)
                                         (upload_metadata f hash (clk 0) md) (buffer f) (clk 1)
                         in (Inr \<lparr>ur_id = toString i,
                                  ur_filename = originalname f,
                                  ur_size = size_f f,
                                  ur_mimetype = JStr (mimetype f),
                                  ur_uploadDate = clk 2\<rparr>, s')))))"

subsection \<open>getFileInfo, getFileStream, listFiles, getFilesByChatId, deleteFile\<close>

definition getFileInfo :: "store \<Rightarrow> string \<Rightarrow> error + FileInfo" where
  "getFileInfo s fileId =
     (case ObjectId fileId of
        None \<Rightarrow> Inl (NotFoundException (FileNotFound fileId))
      | Some objectId \<Rightarrow>
          (case find_docs s (by_id objectId) [] 0 0 of
             [] \<Rightarrow> Inl (NotFoundException (FileNotFound fileId))
           | file # _ \<Rightarrow> Inr (toFileInfo file)))"

text \<open>The download stream is the bytes of the chunk records of the identifier.\<close>

definition openDownloadStream :: "store \<Rightarrow> nat \<Rightarrow> bytes" where
  "openDownloadStream s i = concat (map snd (filter (\<lambda>c. fst c = i) (chunks s)))"

definition getFileStream :: "store \<Rightarrow> string \<Rightarrow> error + (bytes \<times> FileInfo)" where
  "getFileStream s fileId =
     (case ObjectId fileId of
        None \<Rightarrow> Inl (NotFoundException (FileNotFound fileId))
      | Some objectId \<Rightarrow>
          (case getFileInfo s fileId of
             Inl ex \<Rightarrow> Inl (NotFoundException (FileNotFound fileId))
           | Inr fileInfo \<Rightarrow> Inr (openDownloadStream s objectId, fileInfo)))"

definition listFiles :: "store \<Rightarrow> nat option \<Rightarrow> nat option \<Rightarrow> FileInfo list" where
  "listFiles s limit skip =
     map toFileInfo
       (find_docs s \<lparr>q_or = None, q_rest = []\<rparr> [(F_uploadDate, - 1)]
          (case skip of None \<Rightarrow> 0 | Some k \<Rightarrow> k) (case limit of None \<Rightarrow> 50 | Some n \<Rightarrow> n))"

definition getFilesByChatId :: "store \<Rightarrow> string \<Rightarrow> FileInfo list" where
  "getFilesByChatId s chatId =
     map toFileInfo
       (find_docs s \<lparr>q_or = None, q_rest = [(F_meta ''chatId'', Eq (JStr chatId))]\<rparr>
          [(F_uploadDate, - 1)] 0 0)"

definition deleteFile :: "delete_fault \<Rightarrow> store \<Rightarrow> string \<Rightarrow> (error + unit) \<times> store" where
  "deleteFile fault s fileId =
     (case ObjectId fileId of
        None \<Rightarrow> (Inl (NotFoundException (FileNotFound fileId)), s)
      | Some objectId \<Rightarrow>
          (case bucket_delete fault s objectId of
             (True, s') \<Rightarrow> (Inr (), s')
           | (False, s') \<Rightarrow> (Inl (NotFoundException (FileNotFound fileId)), s')))"

subsection \<open>listFilesAdvanced\<close>

datatype sortBy = Size | CreatedAt | UpdatedAt

datatype sortOrder = Asc | Desc

record list_params =
  p_q :: "string option"
  p_mimetype :: "string option"
  p_page :: "int option"
  p_limit :: "nat option"
  p_sortBy :: "sortBy option"
  p_sortOrder :: "sortOrder option"
  p_cursor :: "string option"

datatype list_result =
    CursorResult "FileInfo list" "string option"
  | PageResult "FileInfo list" int nat

text \<open>The filter built from the text query and the mimetype, before the mode is chosen.\<close>

definition text_filter :: "string option \<Rightarrow> string option \<Rightarrow> query" where
  "text_filter q mt =
     (let filter0 = \<lparr>q_or = None, q_rest = []\<rparr>;
          filter1 =
            (case q of
               None \<Rightarrow> filter0
             | Some qs \<Rightarrow>
                 if qs \<noteq> [] \<and> length (trim qs) > 0
                 then let regex = escapeRegex (trim qs)
                      in filter0\<lparr>q_or := Some [[(F_filename, Regex_i regex)],
                                              [(F_meta ''originalName'', Regex_i regex)],
                                              [(F_meta ''description'', Regex_i regex)]]\<rparr>
                 else filter0)
      in (case mt of
            None \<Rightarrow> filter1
          | Some m \<Rightarrow>
              if m \<noteq> [] \<and> length (trim m) > 0
              then filter1\<lparr>q_rest := q_rest filter1 @ [(F_meta ''mimetype'', Eq (JStr (trim m)))]\<rparr>
              else filter1))"

definition direction :: "sortOrder \<Rightarrow> int" where
  "direction so = (if so = Asc then 1 else - 1)"

definition sort_field :: "sortBy \<Rightarrow> field" where
  "sort_field sb =
     (if sb = Size then F_length
      else if sb = UpdatedAt then F_meta ''updatedAt''
      else F_uploadDate)"

text \<open>
  The cursor branch: when the cursor parses and resolves to a document, the
  \<^verbatim>\<open>$or\<close> key of the filter is assigned the continuation condition of the sort key;
  an invalid cursor, or one that resolves to nothing, leaves the filter as it is.
\<close>

definition cursor_filter :: "store \<Rightarrow> query \<Rightarrow> sortBy \<Rightarrow> sortOrder \<Rightarrow> string \<Rightarrow> query" where
  "cursor_filter s flt sb so cursor =
     (case ObjectId cursor of
        None \<Rightarrow> flt
      | Some cursorId \<Rightarrow>
          (case findOne s (by_id cursorId) of
             None \<Rightarrow> flt
           | Some lastDoc \<Rightarrow>
               let op = (if direction so = 1 then Gt else Lt) in
               if sort_field sb = F_uploadDate then
                 flt\<lparr>q_or := Some
                   [[(F_uploadDate, op (JDate (uploadDate lastDoc)))],
                    [(F_uploadDate, Eq (JDate (uploadDate lastDoc))),
                     (F_id, op (JOid (oid lastDoc)))]]\<rparr>
               else if sort_field sb = F_length then
                 flt\<lparr>q_or := Some
                   [[(F_length, op (JNum (int (length_d lastDoc))))],
                    [(F_length, Eq (JNum (int (length_d lastDoc)))),
                     (F_id, op (JOid (oid lastDoc)))]]\<rparr>
               else
                 let v = js_or (opt_get (metadata lastDoc) ''updatedAt'')
                           (JDate (uploadDate lastDoc))
                 in flt\<lparr>q_or := Some
                      [[(F_meta ''updatedAt'', op v)],
                       [(F_meta ''updatedAt'', Eq v), (F_id, op (JOid (oid lastDoc)))]]\<rparr>))"

definition listFilesAdvanced :: "store \<Rightarrow> list_params \<Rightarrow> list_result" where
  "listFilesAdvanced s params =
     (let limit = (case p_limit params of None \<Rightarrow> 50 | Some n \<Rightarrow> n);
          sb = (case p_sortBy params of None \<Rightarrow> CreatedAt | Some k \<Rightarrow> k);
          so = (case p_sortOrder params of None \<Rightarrow> Desc | Some k \<Rightarrow> k);
          flt = text_filter (p_q params) (p_mimetype params);
          srt = [(sort_field sb, direction so), (F_id, direction so)]
      in (case (case p_cursor params of
                  None \<Rightarrow> None | Some c \<Rightarrow> if c \<noteq> [] then Some c else None) of
            Some cursor \<Rightarrow>
              let docs = find_docs s (cursor_filter s flt sb so cursor) srt 0 limit;
                  items = map toFileInfo docs;
                  nxt = (if length docs = limit \<and> docs \<noteq> []
                         then Some (toString (oid (last docs))) else None)
              in CursorResult items nxt
          | None \<Rightarrow>
              let pageNum = (case p_page params of
                               None \<Rightarrow> 1 | Some p \<Rightarrow> if p > 0 then p else 1);
                  skip = nat (pageNum - 1) * limit;
                  docs = find_docs s flt srt skip limit;
                  cnt = countDocuments s flt
              in PageResult (map toFileInfo docs) pageNum cnt))"

definition items_of :: "list_result \<Rightarrow> FileInfo list" where
  "items_of r = (case r of CursorResult items nxt \<Rightarrow> items | PageResult items p t \<Rightarrow> items)"

definition nextCursor_of :: "list_result \<Rightarrow> string option" where
  "nextCursor_of r = (case r of CursorResult items nxt \<Rightarrow> nxt | PageResult items p t \<Rightarrow> None)"

text \<open>
  Walking a listing to completion, as a client does. In page mode: pages \<open>p\<close>,
  \<open>p + 1\<close>, ... until a page comes back empty. In cursor mode: from a first cursor,
  following \<open>nextCursor\<close> until none is returned. Both collect the ids in the order
  received; \<open>None\<close> means the walk did not end within the given number of calls.
\<close>

fun page_walk :: "nat \<Rightarrow> store \<Rightarrow> list_params \<Rightarrow> int \<Rightarrow> string list option" where
  "page_walk 0 s params p = None"
| "page_walk (Suc n) s params p =
     (case listFilesAdvanced s (params\<lparr>p_page := Some p, p_cursor := None\<rparr>) of
        PageResult items pageNum cnt \<Rightarrow>
          (case items of
             [] \<Rightarrow> Some []
           | _ # _ \<Rightarrow> map_option (\<lambda>r. map fi_id items @ r) (page_walk n s params (p + 1)))
      | CursorResult items nxt \<Rightarrow> None)"

fun cursor_walk :: "nat \<Rightarrow> store \<Rightarrow> list_params \<Rightarrow> string \<Rightarrow> string list option" where
  "cursor_walk 0 s params c = None"
| "cursor_walk (Suc n) s params c =
     (case listFilesAdvanced s (params\<lparr>p_cursor := Some c\<rparr>) of
        CursorResult items nxt \<Rightarrow>
          (case nxt of
             None \<Rightarrow> Some (map fi_id items)
           | Some c' \<Rightarrow> map_option (\<lambda>r. map fi_id items @ r) (cursor_walk n s params c'))
      | PageResult items pageNum cnt \<Rightarrow> None)"

subsection \<open>renameFile, replaceFile\<close>

record rename_payload =
  pl_filename :: "string option"
  pl_metadata :: "meta option"

definition renameFile ::
  "(nat \<Rightarrow> int) \<Rightarrow> store \<Rightarrow> string \<Rightarrow> rename_payload \<Rightarrow> (error + FileInfo) \<times> store" where
  "renameFile clk s fileId payload =
     (case ObjectId fileId of
        None \<Rightarrow> (Inl BSONError, s)
      | Some objectId \<Rightarrow>
          (case findOne s (by_id objectId) of
             None \<Rightarrow> (Inl (NotFoundException (FileNotFound fileId)), s)
           | Some exists \<Rightarrow>
               let new_name = (case pl_filename payload of
                                 None \<Rightarrow> None | Some n \<Rightarrow> if n \<noteq> [] then Some n else None);
                   new_meta = (case pl_metadata payload of
                                 Some pm \<Rightarrow> (spread (metadata exists) ++ pm)
                                              (''updatedAt'' \<mapsto> JDate (clk 0))
                               | None \<Rightarrow> (spread (metadata exists))
                                              (''updatedAt'' \<mapsto> JDate (clk 0)));
                   set_fields = (\<lambda>d. (case new_name of
                                       None \<Rightarrow> d | Some n \<Rightarrow> d\<lparr>filename := n\<rparr>)
                                     \<lparr>metadata := Some new_meta\<rparr>);
                   s' = s\<lparr>files := update_one (matches (by_id objectId)) set_fields (files s)\<rparr>
               in (case findOne s' (by_id objectId) of
                     Some file \<Rightarrow> (Inr (toFileInfo file), s')
                   | None \<Rightarrow> (Inl TypeError, s'))))"

text \<open>
  \<open>replaceFile\<close>: the first clock reading stamps \<^verbatim>\<open>updatedAt\<close>, the later ones are
  those of the upload; \<open>fault\<close> is the engine's failure during the delete, if any. A
  delete that throws is logged and the upload goes on, on the store the delete left
  behind.
\<close>

definition replaceFile ::
  "env \<Rightarrow> (nat \<Rightarrow> int) \<Rightarrow> delete_fault \<Rightarrow> (string \<times> nat) option \<Rightarrow> store \<Rightarrow> string
     \<Rightarrow> upfile option \<Rightarrow> meta option \<Rightarrow> (error + FileUploadResult) \<times> store" where
  "replaceFile e clk fault err s fileId newFile additionalMetadata =
     (case newFile of
        None \<Rightarrow> (Inl (BadRequestException NoFileProvided), s)
      | Some f \<Rightarrow>
          (case validateFile e f of
             Some ex \<Rightarrow> (Inl ex, s)
           | None \<Rightarrow>
               (case ObjectId fileId of
                  None \<Rightarrow> (Inl BSONError, s)
                | Some objectId \<Rightarrow>
                    (case findOne s (by_id objectId) of
                       None \<Rightarrow> (Inl (NotFoundException (FileNotFound fileId)), s)
                     | Some existing \<Rightarrow>
                         let s' = snd (bucket_delete fault s objectId)
                         in uploadFile e (\<lambda>k. clk (Suc k)) err s' (Some f)
                              (Some ((spread (metadata existing) ++ spread additionalMetadata)
                                       (''originalReplacedId'' \<mapsto> JStr fileId,
                                        ''updatedAt'' \<mapsto> JDate (clk 0))))))))"

section \<open>Example data\<close>

text \<open>
  Concrete inputs on which the theorems below are instantiated. \<open>demo_digest\<close> stands
  in for the digest in the examples only; every theorem holds for any digest function.
\<close>

definition demo_digest :: "bytes \<Rightarrow> string" where
  "demo_digest b = to_hex 8 (sum_list b)"

definition demo_env :: env where
  "demo_env = \<lparr>maxFileSize = 1000, acceptedTypes = [''text/plain''], sha256 = demo_digest\<rparr>"

definition demo_clock :: "nat \<Rightarrow> int" where
  "demo_clock k = 5000 + int k"

definition empty_store :: store where
  "empty_store = \<lparr>files = [], chunks = [], next_oid = 0\<rparr>"

definition file_a :: upfile where
  "file_a = \<lparr>buffer = [10, 20, 30], originalname = ''a.txt'', mimetype = ''text/plain'', size_f = 3\<rparr>"

definition file_big :: upfile where
  "file_big =
     \<lparr>buffer = [10, 20, 30], originalname = ''big.txt'', mimetype = ''text/plain'', size_f = 2000\<rparr>"

definition file_png :: upfile where
  "file_png = \<lparr>buffer = [7], originalname = ''p.png'', mimetype = ''image/png'', size_f = 1\<rparr>"

definition doc_alpha :: doc where
  "doc_alpha = \<lparr>oid = 1, filename = ''alpha.txt'', length_d = 10, uploadDate = 100,
     metadata = Some [''originalName'' \<mapsto> JStr ''alpha.txt'', ''mimetype'' \<mapsto> JStr ''text/plain'',
                      ''hash'' \<mapsto> JStr ''h1'']\<rparr>"

definition doc_beta :: doc where
  "doc_beta = \<lparr>oid = 2, filename = ''beta.txt'', length_d = 30, uploadDate = 200,
     metadata = Some [''originalName'' \<mapsto> JStr ''beta.txt'', ''mimetype'' \<mapsto> JStr ''text/plain'',
                      ''hash'' \<mapsto> JStr ''h2'']\<rparr>"

definition doc_gamma :: doc where
  "doc_gamma = \<lparr>oid = 3, filename = ''gamma.txt'', length_d = 20, uploadDate = 300,
     metadata = Some [''originalName'' \<mapsto> JStr ''gamma.txt'', ''mimetype'' \<mapsto> JStr ''text/plain'',
                      ''hash'' \<mapsto> JStr ''h3'']\<rparr>"

text \<open>Three uploaded files, none of them renamed so far.\<close>

definition three_files :: store where
  "three_files = \<lparr>files = [doc_alpha, doc_beta, doc_gamma],
                   chunks = [(1, [11]), (2, [12]), (3, [13])], next_oid = 4\<rparr>"

definition size_desc_cursor :: list_params where
  "size_desc_cursor = \<lparr>p_q = None, p_mimetype = None, p_page = None, p_limit = Some 2,
     p_sortBy = Some Size, p_sortOrder = Some Desc, p_cursor = Some ''start''\<rparr>"

definition no_filter :: query where
  "no_filter = \<lparr>q_or = None, q_rest = []\<rparr>"

text \<open>
  Three files, the second never renamed: sorted by last update, descending, it comes
  last, after both renamed ones.
\<close>

definition doc_early :: doc where
  "doc_early = \<lparr>oid = 1, filename = ''early.txt'', length_d = 10, uploadDate = 100,
     metadata = Some [''hash'' \<mapsto> JStr ''h1'', ''updatedAt'' \<mapsto> JDate 150]\<rparr>"

definition doc_plain :: doc where
  "doc_plain = \<lparr>oid = 2, filename = ''plain.txt'', length_d = 30, uploadDate = 200,
     metadata = Some [''hash'' \<mapsto> JStr ''h2'']\<rparr>"

definition doc_late :: doc where
  "doc_late = \<lparr>oid = 3, filename = ''late.txt'', length_d = 20, uploadDate = 300,
     metadata = Some [''hash'' \<mapsto> JStr ''h3'', ''updatedAt'' \<mapsto> JDate 250]\<rparr>"

definition renamed_files :: store where
  "renamed_files = \<lparr>files = [doc_early, doc_plain, doc_late],
                     chunks = [(1, [11]), (2, [12]), (3, [13])], next_oid = 4\<rparr>"

definition after_plain :: list_params where
  "after_plain = \<lparr>p_q = None, p_mimetype = None, p_page = None, p_limit = Some 2,
     p_sortBy = Some UpdatedAt, p_sortOrder = Some Desc,
     p_cursor = Some ''000000000000000000000002''\<rparr>"

definition search_gamma :: list_params where
  "search_gamma = \<lparr>p_q = Some ''gamma'', p_mimetype = None, p_page = None, p_limit = Some 1,
     p_sortBy = None, p_sortOrder = None, p_cursor = None\<rparr>"

definition by_updatedAt :: list_params where
  "by_updatedAt = \<lparr>p_q = None, p_mimetype = None, p_page = None, p_limit = Some 2,
     p_sortBy = Some UpdatedAt, p_sortOrder = Some Desc, p_cursor = None\<rparr>"

subsection \<open>Predicates of the statements\<close>

text \<open>
  \<open>reports_mimetype d m\<close>: the mimetype \<open>m\<close> reported for the stored document \<open>d\<close>
  is neither absent nor empty, and is the default when \<open>d\<close> has no metadata mimetype.
  \<open>projection_of s i m\<close>: some document of the store has the id \<open>i\<close> and is reported
  with mimetype \<open>m\<close> in that way. \<open>has_pair h n d\<close>: the stored hash of \<open>d\<close> is the
  digest \<open>h\<close> and its filename is \<open>n\<close>. \<open>continues_after so t i d\<close>: the
  \<open>metadata.updatedAt\<close> of \<open>d\<close> is a date strictly after \<open>t\<close> (ascending) or strictly
  before \<open>t\<close> (descending), or it is \<open>t\<close> and the id of \<open>d\<close> is after, or before, \<open>i\<close>.
\<close>

definition continues_after :: "sortOrder \<Rightarrow> int \<Rightarrow> nat \<Rightarrow> doc \<Rightarrow> bool" where
  "continues_after so t i d =
     (case opt_get (metadata d) ''updatedAt'' of
        Some (JDate u) \<Rightarrow>
          (if so = Asc then t < u \<or> (u = t \<and> i < oid d) else u < t \<or> (u = t \<and> oid d < i))
      | _ \<Rightarrow> False)"


definition reports_mimetype :: "doc \<Rightarrow> jsval \<Rightarrow> bool" where
  "reports_mimetype d m =
     (truthy m \<and> (opt_get (metadata d) ''mimetype'' = None \<longrightarrow> m = JStr ''application/octet-stream''))"

definition projection_of :: "store \<Rightarrow> string \<Rightarrow> jsval \<Rightarrow> bool" where
  "projection_of s i m = (\<exists>d\<in>set (files s). i = toString (oid d) \<and> reports_mimetype d m)"

subsection \<open>A document without a mimetype\<close>

definition doc_nomime :: doc where
  "doc_nomime = \<lparr>oid = 9, filename = ''a.txt'', length_d = 3, uploadDate = 50,
     metadata = Some [''hash'' \<mapsto> JStr ''0000003c'', ''chatId'' \<mapsto> JStr ''c1'']\<rparr>"

definition nomime_store :: store where
  "nomime_store = \<lparr>files = [doc_nomime], chunks = [(9, [10, 20, 30])], next_oid = 10\<rparr>"

definition doc_renamed :: doc where
  "doc_renamed = \<lparr>oid = 9, filename = ''b.txt'', length_d = 3, uploadDate = 50,
     metadata = Some [''hash'' \<mapsto> JStr ''0000003c'', ''chatId'' \<mapsto> JStr ''c1'',
                      ''updatedAt'' \<mapsto> JDate 5000]\<rparr>"

definition default_params :: list_params where
  "default_params = \<lparr>p_q = None, p_mimetype = None, p_page = None, p_limit = None,
     p_sortBy = None, p_sortOrder = None, p_cursor = None\<rparr>"

definition rename_to_b :: rename_payload where
  "rename_to_b = \<lparr>pl_filename = Some ''b.txt'', pl_metadata = None\<rparr>"

subsection \<open>Inputs of the upload and rename examples\<close>

definition tamper_hash :: rename_payload where
  "tamper_hash = \<lparr>pl_filename = None, pl_metadata = Some [''hash'' \<mapsto> JStr ''tampered'']\<rparr>"








text \<open>
  \<open>wf_store\<close>: the ids of the stored documents are distinct (the collection's unique
  index on \<^verbatim>\<open>_id\<close>), each was handed out before, and the next one still fits 12 bytes.
\<close>

definition wf_store :: "store \<Rightarrow> bool" where
  "wf_store s =
     (distinct (map oid (files s)) \<and> (\<forall>d\<in>set (files s). oid d < next_oid s) \<and>
      next_oid s < 16 ^ 24)"


text \<open>
  \<open>text_hit q d\<close>: the filename, the metadata original name or the metadata
  description of \<open>d\<close> is a string that contains \<open>q\<close>, letters compared without case.
\<close>

definition text_hit :: "string \<Rightarrow> doc \<Rightarrow> bool" where
  "text_hit q d =
     list_ex (\<lambda>v. case v of Some (JStr t) \<Rightarrow> contains (map to_lower t) (map to_lower q) | _ \<Rightarrow> False)
       [Some (JStr (filename d)), opt_get (metadata d) ''originalName'',
        opt_get (metadata d) ''description'']"

subsection \<open>Unfiltered listings in sorted order\<close>

text \<open>
  \<open>walk_params\<close>: the parameters of an unfiltered listing. \<open>sorted_docs\<close>: all
  documents in the order of the sort specification of \<open>listFilesAdvanced\<close>.
  \<open>doc_key\<close>: for the sort keys size and creation time, the pair of numbers whose
  lexicographic order that order is.
\<close>

definition sort_num :: "sortBy \<Rightarrow> doc \<Rightarrow> int" where
  "sort_num sb d = (if sb = Size then int (length_d d) else uploadDate d)"

definition doc_key :: "sortBy \<Rightarrow> sortOrder \<Rightarrow> doc \<Rightarrow> int \<times> int" where
  "doc_key sb so d =
     (if so = Asc then (sort_num sb d, int (oid d)) else (- sort_num sb d, - int (oid d)))"

definition walk_params :: "nat \<Rightarrow> sortBy \<Rightarrow> sortOrder \<Rightarrow> list_params" where
  "walk_params n sb so =
     \<lparr>p_q = None, p_mimetype = None, p_page = None, p_limit = Some n,
      p_sortBy = Some sb, p_sortOrder = Some so, p_cursor = None\<rparr>"

definition sorted_docs :: "store \<Rightarrow> sortBy \<Rightarrow> sortOrder \<Rightarrow> doc list" where
  "sorted_docs s sb so =
     sort_by (sort_le [(sort_field sb, direction so), (F_id, direction so)]) (files s)"

section \<open>Properties\<close>

subsection \<open>Validation comes before any write\<close>

text \<open>
  C7. \<open>uploadFile\<close> validates before it writes, in this order: a declared size above
  \<open>maxFileSize\<close> is rejected with the message that names the limit; otherwise a
  mimetype outside a non-empty \<open>acceptedTypes\<close> is rejected. In both cases the store
  after the call is the store before it, so no chunk data was written.
\<close>

theorem uploadFile_validates_first:
  "(size_f f > maxFileSize e \<longrightarrow>
      uploadFile e clk err s (Some f) md =
        (Inl (BadRequestException (FileSizeExceeds (size_f f) (maxFileSize e))), s)) \<and>
   (size_f f \<le> maxFileSize e \<and> acceptedTypes e \<noteq> [] \<and> mimetype f \<notin> set (acceptedTypes e) \<longrightarrow>
      uploadFile e clk err s (Some f) md =
        (Inl (BadRequestException (FileTypeNotAllowed (mimetype f) (acceptedTypes e))), s))"
  by (simp add: uploadFile_def validateFile_def)

theorem uploadFile_validates_first_witness:
  "size_f file_big > maxFileSize demo_env \<and>
   uploadFile demo_env demo_clock None empty_store (Some file_big) None =
     (Inl (BadRequestException (FileSizeExceeds 2000 1000)), empty_store) \<and>
   size_f file_png \<le> maxFileSize demo_env \<and> acceptedTypes demo_env \<noteq> [] \<and>
   mimetype file_png \<notin> set (acceptedTypes demo_env) \<and>
   uploadFile demo_env demo_clock None empty_store (Some file_png) None =
     (Inl (BadRequestException (FileTypeNotAllowed ''image/png'' [''text/plain''])), empty_store)"
  using uploadFile_validates_first [where f = file_big and e = demo_env and clk = demo_clock
          and err = None and s = empty_store and md = None]
        uploadFile_validates_first [where f = file_png and e = demo_env and clk = demo_clock
          and err = None and s = empty_store and md = None]
  by (simp add: file_big_def file_png_def demo_env_def)

subsection \<open>Evaluation on the example data\<close>

lemma toString_3: "toString 3 = ''000000000000000000000003''"
  by code_simp

lemma ObjectId_start: "ObjectId ''start'' = None"
  by (simp add: ObjectId_def)

lemma three_files_docs:
  "find_docs three_files (cursor_filter three_files (text_filter None None) Size Desc ''start'')
     [(sort_field Size, direction Desc), (F_id, direction Desc)] 0 2 = [doc_beta, doc_gamma]"
  by (simp add: three_files_def find_docs_def
      cursor_filter_def ObjectId_start text_filter_def sort_by_def apply_limit_def
      matches_def matches_clause_def sort_field_def direction_def sort_value_def bson_lt_def
      doc_alpha_def doc_beta_def doc_gamma_def)

subsection \<open>Identifiers that do not parse\<close>

text \<open>
  C4. The claim: every operation that takes an id fails with NotFound when the id does
  not parse. On the id \<open>not-an-id\<close>, \<open>getFileInfo\<close>, \<open>getFileStream\<close> and
  \<open>deleteFile\<close> do; \<open>renameFile\<close> and \<open>replaceFile\<close> construct the ObjectId outside
  any handler, and the parse error leaves them as it is.
\<close>

theorem unparsable_id_errors:
  "ObjectId ''not-an-id'' = None \<and>
   fst (renameFile demo_clock three_files ''not-an-id''
          \<lparr>pl_filename = Some ''x.txt'', pl_metadata = None\<rparr>) = Inl BSONError \<and>
   fst (replaceFile demo_env demo_clock No_fault None three_files ''not-an-id'' (Some file_a) None)
     = Inl BSONError \<and>
   getFileInfo three_files ''not-an-id'' = Inl (NotFoundException (FileNotFound ''not-an-id'')) \<and>
   getFileStream three_files ''not-an-id'' = Inl (NotFoundException (FileNotFound ''not-an-id'')) \<and>
   map (\<lambda>fault. fst (deleteFile fault three_files ''not-an-id''))
     [No_fault, Fails_untouched, Fails_after_document]
     = replicate 3 (Inl (NotFoundException (FileNotFound ''not-an-id'')))"
  by (simp add: ObjectId_def renameFile_def replaceFile_def getFileInfo_def getFileStream_def
        deleteFile_def validateFile_def file_a_def demo_env_def numeral_3_eq_3)

text \<open>
  The same for every id that does not parse, on every store: the three operations with
  a handler answer NotFound, the two without one pass the parse error on.
\<close>

lemma unparsable_id_by_operation:
  assumes "ObjectId fileId = None"
  shows "getFileInfo s fileId = Inl (NotFoundException (FileNotFound fileId))"
    and "getFileStream s fileId = Inl (NotFoundException (FileNotFound fileId))"
    and "deleteFile fault s fileId = (Inl (NotFoundException (FileNotFound fileId)), s)"
    and "renameFile clk s fileId payload = (Inl BSONError, s)"
    and "validateFile e f = None \<Longrightarrow>
           replaceFile e clk fault err s fileId (Some f) additionalMetadata = (Inl BSONError, s)"
  using assms
  by (simp_all add: getFileInfo_def getFileStream_def deleteFile_def renameFile_def replaceFile_def)

subsection \<open>The next cursor\<close>

lemma listFilesAdvanced_cursor_mode:
  assumes "p_cursor params = Some c" and "c \<noteq> []"
  shows "listFilesAdvanced s params =
     (let limit = (case p_limit params of None \<Rightarrow> 50 | Some n \<Rightarrow> n);
          sb = (case p_sortBy params of None \<Rightarrow> CreatedAt | Some k \<Rightarrow> k);
          so = (case p_sortOrder params of None \<Rightarrow> Desc | Some k \<Rightarrow> k);
          docs = find_docs s (cursor_filter s (text_filter (p_q params) (p_mimetype params)) sb so c)
                   [(sort_field sb, direction so), (F_id, direction so)] 0 limit
      in CursorResult (map toFileInfo docs)
           (if length docs = limit \<and> docs \<noteq> [] then Some (toString (oid (last docs))) else None))"
  using assms by (simp add: listFilesAdvanced_def Let_def)

lemma three_files_first_page:
  "listFilesAdvanced three_files size_desc_cursor =
     CursorResult (map toFileInfo [doc_beta, doc_gamma]) (Some ''000000000000000000000003'')"
proof -
  have c: "p_cursor size_desc_cursor = Some ''start''" by (simp add: size_desc_cursor_def)
  have g: "oid doc_gamma = 3" by (simp add: doc_gamma_def)
  show ?thesis
    unfolding listFilesAdvanced_cursor_mode [OF c, simplified]
    by (simp add: size_desc_cursor_def three_files_docs g toString_3)
qed

text \<open>
  C8, as stated, fails where the limit is 0 (which the engine reads as no limit) and
  nothing matches: the number of returned items equals the limit, and there is no last
  item and no next cursor.
\<close>

theorem nextCursor_counterexample:
  "listFilesAdvanced empty_store
     \<lparr>p_q = None, p_mimetype = None, p_page = None, p_limit = Some 0,
      p_sortBy = None, p_sortOrder = None, p_cursor = Some ''x''\<rparr> = CursorResult [] None"
  by (simp add: listFilesAdvanced_def find_docs_def empty_store_def apply_limit_def sort_by_def)

text \<open>
  C8, amended. In cursor mode the next cursor is the id of the last returned item
  exactly when the number of returned items equals the limit and at least one item is
  returned; otherwise it is absent.
\<close>

theorem nextCursor_iff_full_page:
  assumes "p_cursor params = Some c" and "c \<noteq> []"
    and "listFilesAdvanced s params = CursorResult items nxt"
  shows "nxt = (if length items = (case p_limit params of None \<Rightarrow> 50 | Some n \<Rightarrow> n) \<and> items \<noteq> []
                then Some (fi_id (last items)) else None)"
proof -
  define limit where "limit = (case p_limit params of None \<Rightarrow> 50 | Some n \<Rightarrow> n)"
  define sb where "sb = (case p_sortBy params of None \<Rightarrow> CreatedAt | Some k \<Rightarrow> k)"
  define so where "so = (case p_sortOrder params of None \<Rightarrow> Desc | Some k \<Rightarrow> k)"
  define docs where "docs = find_docs s
      (cursor_filter s (text_filter (p_q params) (p_mimetype params)) sb so c)
      [(sort_field sb, direction so), (F_id, direction so)] 0 limit"
  have "CursorResult items nxt = CursorResult (map toFileInfo docs)
          (if length docs = limit \<and> docs \<noteq> [] then Some (toString (oid (last docs))) else None)"
    using listFilesAdvanced_cursor_mode [OF assms(1,2), of s] assms(3)
    by (simp add: Let_def limit_def sb_def so_def docs_def)
  then have items: "items = map toFileInfo docs"
    and nxt: "nxt = (if length docs = limit \<and> docs \<noteq> []
                     then Some (toString (oid (last docs))) else None)"
    by simp_all
  have "docs \<noteq> [] \<Longrightarrow> fi_id (last items) = toString (oid (last docs))"
    by (simp add: items last_map toFileInfo_def)
  then show ?thesis
    unfolding limit_def [symmetric] by (simp add: nxt items)
qed

theorem nextCursor_iff_full_page_witness:
  "p_cursor size_desc_cursor = Some ''start'' \<and>
   listFilesAdvanced three_files size_desc_cursor =
     CursorResult (map toFileInfo [doc_beta, doc_gamma]) (Some ''000000000000000000000003'') \<and>
   Some ''000000000000000000000003'' =
     (if length (map toFileInfo [doc_beta, doc_gamma]) =
           (case p_limit size_desc_cursor of None \<Rightarrow> 50 | Some n \<Rightarrow> n) \<and>
         map toFileInfo [doc_beta, doc_gamma] \<noteq> []
      then Some (fi_id (last (map toFileInfo [doc_beta, doc_gamma]))) else None)"
proof -
  have c: "p_cursor size_desc_cursor = Some ''start''" by (simp add: size_desc_cursor_def)
  have ne: "''start'' \<noteq> []" by simp
  show ?thesis
    using nextCursor_iff_full_page [OF c ne three_files_first_page] c three_files_first_page
    by simp
qed

subsection \<open>The continuation filter of the last-update sort\<close>

lemma cursor_filter_updatedAt:
  assumes "ObjectId cursor = Some i"
    and "findOne s (by_id i) = Some lastDoc"
    and "opt_get (metadata lastDoc) ''updatedAt'' = None \<or>
         opt_get (metadata lastDoc) ''updatedAt'' = Some JNull"
  shows "cursor_filter s flt UpdatedAt so cursor =
           flt\<lparr>q_or := Some
             [[(F_meta ''updatedAt'', (if so = Asc then Gt else Lt) (JDate (uploadDate lastDoc)))],
              [(F_meta ''updatedAt'', Eq (JDate (uploadDate lastDoc))),
               (F_id, (if so = Asc then Gt else Lt) (JOid (oid lastDoc)))]]\<rparr>"
  using assms
  by (auto simp add: cursor_filter_def sort_field_def direction_def js_or_def Let_def)

lemma matches_updatedAt_continuation:
  "matches (flt\<lparr>q_or := Some
             [[(F_meta ''updatedAt'', (if so = Asc then Gt else Lt) (JDate t))],
              [(F_meta ''updatedAt'', Eq (JDate t)),
               (F_id, (if so = Asc then Gt else Lt) (JOid i))]]\<rparr>) d
     \<longleftrightarrow> continues_after so t i d \<and> matches_clause d (q_rest flt)"
  by (cases so; cases "opt_get (metadata d) ''updatedAt''")
     (auto simp: matches_def matches_clause_def continues_after_def split: jsval.splits)

text \<open>
  C10. In cursor mode with sort key last-update time, when the document the cursor
  names has no \<open>updatedAt\<close> in its metadata, the continuation filter compares
  \<open>metadata.updatedAt\<close> with that document's \<open>uploadDate\<close>, strictly after it when
  ascending and strictly before it when descending, with the tie-break on the id; and
  the call returns, in sort order and up to the limit, the documents that this
  comparison (and the mimetype filter) selects.
\<close>

theorem updatedAt_cursor_falls_back:
  assumes c: "p_cursor params = Some cursor"
    and sb: "p_sortBy params = Some UpdatedAt"
    and i: "ObjectId cursor = Some i"
    and fo: "findOne s (by_id i) = Some lastDoc"
    and no: "opt_get (metadata lastDoc) ''updatedAt'' = None \<or>
             opt_get (metadata lastDoc) ''updatedAt'' = Some JNull"
  shows "cursor_filter s flt UpdatedAt so cursor =
           flt\<lparr>q_or := Some
             [[(F_meta ''updatedAt'', (if so = Asc then Gt else Lt) (JDate (uploadDate lastDoc)))],
              [(F_meta ''updatedAt'', Eq (JDate (uploadDate lastDoc))),
               (F_id, (if so = Asc then Gt else Lt) (JOid (oid lastDoc)))]]\<rparr> \<and>
         listFilesAdvanced s params =
           (let limit = (case p_limit params of None \<Rightarrow> 50 | Some n \<Rightarrow> n);
                ord = (case p_sortOrder params of None \<Rightarrow> Desc | Some k \<Rightarrow> k);
                docs = apply_limit limit
                         (sort_by (sort_le [(F_meta ''updatedAt'', direction ord),
                                            (F_id, direction ord)])
                            (filter (\<lambda>d. continues_after ord (uploadDate lastDoc) (oid lastDoc) d \<and>
                                          matches_clause d
                                            (q_rest (text_filter (p_q params) (p_mimetype params))))
                               (files s)))
            in CursorResult (map toFileInfo docs)
                 (if length docs = limit \<and> docs \<noteq> []
                  then Some (toString (oid (last docs))) else None))"
proof
  show "cursor_filter s flt UpdatedAt so cursor =
           flt\<lparr>q_or := Some
             [[(F_meta ''updatedAt'', (if so = Asc then Gt else Lt) (JDate (uploadDate lastDoc)))],
              [(F_meta ''updatedAt'', Eq (JDate (uploadDate lastDoc))),
               (F_id, (if so = Asc then Gt else Lt) (JOid (oid lastDoc)))]]\<rparr>"
    by (rule cursor_filter_updatedAt [OF i fo no])
next
  define ord where "ord = (case p_sortOrder params of None \<Rightarrow> Desc | Some k \<Rightarrow> k)"
  define flt0 where "flt0 = text_filter (p_q params) (p_mimetype params)"
  from i have ne: "cursor \<noteq> []" by (auto simp: ObjectId_def split: if_splits)
  have "filter (matches (cursor_filter s flt0 UpdatedAt ord cursor)) (files s) =
        filter (\<lambda>d. continues_after ord (uploadDate lastDoc) (oid lastDoc) d \<and>
                     matches_clause d (q_rest flt0)) (files s)"
    unfolding cursor_filter_updatedAt [OF i fo no]
    by (rule filter_cong) (simp_all add: matches_updatedAt_continuation)
  then have "find_docs s (cursor_filter s flt0 UpdatedAt ord cursor)
               [(sort_field UpdatedAt, direction ord), (F_id, direction ord)] 0 n =
             apply_limit n
               (sort_by (sort_le [(F_meta ''updatedAt'', direction ord), (F_id, direction ord)])
                  (filter (\<lambda>d. continues_after ord (uploadDate lastDoc) (oid lastDoc) d \<and>
                                matches_clause d (q_rest flt0)) (files s)))" for n
    by (simp add: find_docs_def sort_field_def)
  then show "listFilesAdvanced s params =
           (let limit = (case p_limit params of None \<Rightarrow> 50 | Some n \<Rightarrow> n);
                ord = (case p_sortOrder params of None \<Rightarrow> Desc | Some k \<Rightarrow> k);
                docs = apply_limit limit
                         (sort_by (sort_le [(F_meta ''updatedAt'', direction ord),
                                            (F_id, direction ord)])
                            (filter (\<lambda>d. continues_after ord (uploadDate lastDoc) (oid lastDoc) d \<and>
                                          matches_clause d
                                            (q_rest (text_filter (p_q params) (p_mimetype params))))
                               (files s)))
            in CursorResult (map toFileInfo docs)
                 (if length docs = limit \<and> docs \<noteq> []
                  then Some (toString (oid (last docs))) else None))"
    using c ne by (simp add: listFilesAdvanced_def sb Let_def ord_def flt0_def)
qed

lemma renamed_files_continuation:
  "apply_limit 2
     (sort_by (sort_le [(F_meta ''updatedAt'', direction Desc), (F_id, direction Desc)])
        (filter (\<lambda>d. continues_after Desc (uploadDate doc_plain) (oid doc_plain) d \<and>
                      matches_clause d (q_rest (text_filter None None)))
           (files renamed_files))) = [doc_early]"
  by (simp add: renamed_files_def doc_early_def doc_plain_def doc_late_def continues_after_def
      opt_get_def text_filter_def matches_clause_def sort_by_def apply_limit_def)

theorem updatedAt_cursor_falls_back_witness:
  "p_cursor after_plain = Some ''000000000000000000000002'' \<and>
   p_sortBy after_plain = Some UpdatedAt \<and>
   ObjectId ''000000000000000000000002'' = Some 2 \<and>
   findOne renamed_files (by_id 2) = Some doc_plain \<and>
   opt_get (metadata doc_plain) ''updatedAt'' = None \<and>
   cursor_filter renamed_files no_filter UpdatedAt Desc ''000000000000000000000002'' =
     no_filter\<lparr>q_or := Some
       [[(F_meta ''updatedAt'', Lt (JDate (uploadDate doc_plain)))],
        [(F_meta ''updatedAt'', Eq (JDate (uploadDate doc_plain))),
         (F_id, Lt (JOid (oid doc_plain)))]]\<rparr> \<and>
   uploadDate doc_plain = 200 \<and>
   continues_after Desc 200 2 doc_early \<and> \<not> continues_after Desc 200 2 doc_late \<and>
   listFilesAdvanced renamed_files after_plain = CursorResult (map toFileInfo [doc_early]) None"
proof -
  have c: "p_cursor after_plain = Some ''000000000000000000000002''"
    and sb: "p_sortBy after_plain = Some UpdatedAt"
    by (simp_all add: after_plain_def)
  have p: "ObjectId ''000000000000000000000002'' = Some 2" by code_simp
  have f: "findOne renamed_files (by_id 2) = Some doc_plain"
    by (simp add: findOne_def renamed_files_def by_id_def matches_def matches_clause_def
        doc_early_def doc_plain_def doc_late_def)
  have u': "opt_get (metadata doc_plain) ''updatedAt'' = None"
    by (simp add: doc_plain_def opt_get_def)
  then have u: "opt_get (metadata doc_plain) ''updatedAt'' = None \<or>
           opt_get (metadata doc_plain) ''updatedAt'' = Some JNull"
    by simp
  have d: "uploadDate doc_plain = 200" by (simp add: doc_plain_def)
  have e: "continues_after Desc 200 2 doc_early" "\<not> continues_after Desc 200 2 doc_late"
    by (simp_all add: continues_after_def doc_early_def doc_late_def opt_get_def)
  note T = updatedAt_cursor_falls_back [OF c sb p f u, of no_filter Desc]
  from T have lst: "listFilesAdvanced renamed_files after_plain =
      CursorResult (map toFileInfo [doc_early]) None"
    by (simp add: Let_def after_plain_def renamed_files_continuation [simplified]
        renamed_files_continuation)
  from T have flt: "cursor_filter renamed_files no_filter UpdatedAt Desc ''000000000000000000000002'' =
     no_filter\<lparr>q_or := Some
       [[(F_meta ''updatedAt'', Lt (JDate (uploadDate doc_plain)))],
        [(F_meta ''updatedAt'', Eq (JDate (uploadDate doc_plain))),
         (F_id, Lt (JOid (oid doc_plain)))]]\<rparr>"
    by simp
  show ?thesis
    using c sb p f u' flt d e lst by (intro conjI)
qed

subsection \<open>The text query in cursor mode\<close>

text \<open>
  C3. The claim: with a text query, page mode and cursor mode alike return only records
  whose filename, original name or description contains the query. On three files and
  the query \<open>gamma\<close> with limit 1, page mode and the first cursor call return
  \<open>gamma.txt\<close> alone; the call with the cursor that first call hands back returns
  \<open>beta.txt\<close>, which does not contain the query: the continuation condition is
  assigned to the same \<^verbatim>\<open>$or\<close> key that held the text condition.
\<close>

theorem cursor_mode_drops_text_query:
  "map fi_filename (items_of (listFilesAdvanced three_files search_gamma)) = [''gamma.txt''] \<and>
   map fi_filename (items_of (listFilesAdvanced three_files (search_gamma\<lparr>p_cursor := Some ''start''\<rparr>)))
     = [''gamma.txt''] \<and>
   nextCursor_of (listFilesAdvanced three_files (search_gamma\<lparr>p_cursor := Some ''start''\<rparr>))
     = Some ''000000000000000000000003'' \<and>
   map fi_filename (items_of (listFilesAdvanced three_files
      (search_gamma\<lparr>p_cursor := Some ''000000000000000000000003''\<rparr>))) = [''beta.txt''] \<and>
   \<not> contains (map to_lower ''beta.txt'') (map to_lower ''gamma'')"
  by code_simp

subsection \<open>Walking both modes to completion\<close>

text \<open>
  C5. The claim: for each sort key, the page walk and the cursor walk over an unchanging,
  unfiltered collection give the same ids. Sorted by last-update time, descending, limit
  2, over three files that were never renamed, the page walk gives all three ids and
  the cursor walk stops after two: the continuation filter compares the missing
  \<open>metadata.updatedAt\<close> of the remaining file with a date, which never matches. The
  call with the id of the second file as cursor returns nothing, so the walk also stops
  there when its first page was fetched in page mode.
\<close>

theorem updatedAt_cursor_walk_omits:
  "page_walk 5 three_files by_updatedAt 1 =
     Some [''000000000000000000000003'', ''000000000000000000000002'', ''000000000000000000000001''] \<and>
   cursor_walk 5 three_files by_updatedAt ''start'' =
     Some [''000000000000000000000003'', ''000000000000000000000002''] \<and>
   map fi_id (items_of (listFilesAdvanced three_files
      (by_updatedAt\<lparr>p_cursor := Some ''000000000000000000000002''\<rparr>))) = []"
  by code_simp

subsection \<open>The mimetype of a projection\<close>

lemma set_insort_by: "set (insort_by le x xs) = insert x (set xs)"
  by (induction xs) auto

lemma set_sort_by: "set (sort_by le xs) = set xs"
  by (induction xs) (simp_all add: sort_by_def set_insort_by)

lemma find_docs_subset: "set (find_docs s q spec k n) \<subseteq> {d \<in> set (files s). matches q d}"
proof -
  have "set (find_docs s q spec k n) \<subseteq> set (sort_by (sort_le spec) (filter (matches q) (files s)))"
    unfolding find_docs_def apply_limit_def
    by (auto dest: in_set_takeD in_set_dropD)
  then show ?thesis by (simp add: set_sort_by)
qed

lemma findOne_SomeD: "findOne s q = Some d \<Longrightarrow> d \<in> set (files s) \<and> matches q d"
proof -
  assume "findOne s q = Some d"
  then obtain ds where "filter (matches q) (files s) = d # ds"
    by (auto simp: findOne_def split: list.splits)
  then have "d \<in> set (filter (matches q) (files s))" by simp
  then show ?thesis by simp
qed

lemma truthy_js_or: "truthy y \<Longrightarrow> truthy (js_or x y)"
  by (simp add: js_or_def split: option.splits)

lemma reports_mimetype_js_or:
  "reports_mimetype d (js_or (opt_get (metadata d) ''mimetype'') (JStr ''application/octet-stream''))"
  by (simp add: reports_mimetype_def truthy_js_or) (simp add: js_or_def)

lemma projection_of_toFileInfo:
  "d \<in> set (files s) \<Longrightarrow> projection_of s (fi_id (toFileInfo d)) (fi_mimetype (toFileInfo d))"
  unfolding projection_of_def toFileInfo_def
  using reports_mimetype_js_or by auto

lemma projection_of_find_docs:
  "r \<in> set (map toFileInfo (find_docs s q spec k n)) \<Longrightarrow> projection_of s (fi_id r) (fi_mimetype r)"
  using find_docs_subset [of s q spec k n] projection_of_toFileInfo by auto

lemma getFileInfo_projection:
  "getFileInfo s fileId = Inr r \<Longrightarrow> projection_of s (fi_id r) (fi_mimetype r)"
proof -
  assume a: "getFileInfo s fileId = Inr r"
  then obtain i where i: "ObjectId fileId = Some i"
    by (auto simp: getFileInfo_def split: option.splits)
  with a obtain d ds where d: "find_docs s (by_id i) [] 0 0 = d # ds" and r: "r = toFileInfo d"
    by (auto simp: getFileInfo_def split: list.splits)
  from d have "d \<in> set (find_docs s (by_id i) [] 0 0)" by simp
  then have "d \<in> set (files s)" using find_docs_subset by blast
  then show ?thesis by (simp add: r projection_of_toFileInfo)
qed

lemma getFileStream_projection:
  "getFileStream s fileId = Inr (b, r) \<Longrightarrow> projection_of s (fi_id r) (fi_mimetype r)"
  by (auto simp: getFileStream_def getFileInfo_projection split: option.splits sum.splits)

lemma items_of_listFilesAdvanced:
  "\<exists>q spec k n. items_of (listFilesAdvanced s params) = map toFileInfo (find_docs s q spec k n)"
proof (cases "case p_cursor params of None \<Rightarrow> None | Some c \<Rightarrow> if c \<noteq> [] then Some c else None")
  case None
  then show ?thesis
    unfolding listFilesAdvanced_def Let_def items_of_def by (simp, blast)
next
  case (Some c)
  then show ?thesis
    unfolding listFilesAdvanced_def Let_def items_of_def by (simp, blast)
qed

lemma items_of_projection:
  "r \<in> set (items_of (listFilesAdvanced s params)) \<Longrightarrow> projection_of s (fi_id r) (fi_mimetype r)"
  using items_of_listFilesAdvanced [of s params] projection_of_find_docs by metis

lemma renameFile_projection:
  "renameFile clk s fileId payload = (Inr r, s') \<Longrightarrow> projection_of s' (fi_id r) (fi_mimetype r)"
proof -
  assume a: "renameFile clk s fileId payload = (Inr r, s')"
  then obtain i where i: "ObjectId fileId = Some i"
    by (auto simp: renameFile_def split: option.splits)
  with a obtain ex where ex: "findOne s (by_id i) = Some ex"
    by (auto simp: renameFile_def split: option.splits)
  from a i ex obtain fl where "findOne s' (by_id i) = Some fl" and "r = toFileInfo fl"
    by (auto simp: renameFile_def Let_def split: option.splits)
  then show ?thesis
    using findOne_SomeD projection_of_toFileInfo by blast
qed

lemma uploadFile_dedup_projection:
  assumes "validateFile e f = None"
    and "find_docs s (dedup_query (sha256 e (buffer f)) (originalname f)) [] 0 1 = dup # rest"
  shows "\<exists>r. uploadFile e clk err s (Some f) md = (Inr r, s) \<and>
             projection_of s (ur_id r) (ur_mimetype r)"
proof -
  have "dup \<in> set (find_docs s (dedup_query (sha256 e (buffer f)) (originalname f)) [] 0 1)"
    unfolding assms(2) by simp
  then have "dup \<in> set (files s)" using find_docs_subset by blast
  then show ?thesis
    using assms reports_mimetype_js_or [of dup]
    by (auto simp: uploadFile_def Let_def projection_of_def)
qed

text \<open>
  C9. Every projection returned by the point lookup, the stream lookup, the listings,
  the by-chat lookup, rename and the dedup short-circuit of upload belongs to a stored
  document, reports the default mimetype when that document has no metadata mimetype,
  and never reports an absent or empty mimetype.
\<close>

theorem projections_report_mimetype:
  "(\<forall>r. getFileInfo s fileId = Inr r \<longrightarrow> projection_of s (fi_id r) (fi_mimetype r)) \<and>
   (\<forall>b r. getFileStream s fileId = Inr (b, r) \<longrightarrow> projection_of s (fi_id r) (fi_mimetype r)) \<and>
   (\<forall>r\<in>set (listFiles s limit skip). projection_of s (fi_id r) (fi_mimetype r)) \<and>
   (\<forall>r\<in>set (items_of (listFilesAdvanced s params)). projection_of s (fi_id r) (fi_mimetype r)) \<and>
   (\<forall>r\<in>set (getFilesByChatId s chatId). projection_of s (fi_id r) (fi_mimetype r)) \<and>
   (\<forall>r s'. renameFile clk s fileId payload = (Inr r, s') \<longrightarrow>
       projection_of s' (fi_id r) (fi_mimetype r)) \<and>
   (\<forall>dup rest. validateFile e f = None \<and>
       find_docs s (dedup_query (sha256 e (buffer f)) (originalname f)) [] 0 1 = dup # rest \<longrightarrow>
       (\<exists>r. uploadFile e clk err s (Some f) md = (Inr r, s) \<and>
            projection_of s (ur_id r) (ur_mimetype r)))"
proof (intro conjI allI impI ballI)
  fix r assume "getFileInfo s fileId = Inr r"
  then show "projection_of s (fi_id r) (fi_mimetype r)" by (rule getFileInfo_projection)
next
  fix b r assume "getFileStream s fileId = Inr (b, r)"
  then show "projection_of s (fi_id r) (fi_mimetype r)" by (rule getFileStream_projection)
next
  fix r assume "r \<in> set (listFiles s limit skip)"
  then show "projection_of s (fi_id r) (fi_mimetype r)"
    unfolding listFiles_def by (rule projection_of_find_docs)
next
  fix r assume "r \<in> set (items_of (listFilesAdvanced s params))"
  then show "projection_of s (fi_id r) (fi_mimetype r)" by (rule items_of_projection)
next
  fix r assume "r \<in> set (getFilesByChatId s chatId)"
  then show "projection_of s (fi_id r) (fi_mimetype r)"
    unfolding getFilesByChatId_def by (rule projection_of_find_docs)
next
  fix r s' assume "renameFile clk s fileId payload = (Inr r, s')"
  then show "projection_of s' (fi_id r) (fi_mimetype r)" by (rule renameFile_projection)
next
  fix dup rest
  assume "validateFile e f = None \<and>
       find_docs s (dedup_query (sha256 e (buffer f)) (originalname f)) [] 0 1 = dup # rest"
  then show "\<exists>r. uploadFile e clk err s (Some f) md = (Inr r, s) \<and>
            projection_of s (ur_id r) (ur_mimetype r)"
    using uploadFile_dedup_projection by blast
qed

lemma ObjectId_9: "ObjectId ''000000000000000000000009'' = Some 9" by code_simp

lemma toString_9: "toString 9 = ''000000000000000000000009''" by code_simp


lemma demo_digest_file_a: "demo_digest [10, 20, 30] = ''0000003c''" by code_simp

lemma sort_by_single: "sort_by le [x] = [x]" by (simp add: sort_by_def)

lemma nomime_getFileInfo:
  "getFileInfo nomime_store ''000000000000000000000009'' = Inr (toFileInfo doc_nomime)"
  by (simp add: getFileInfo_def ObjectId_9 find_docs_def nomime_store_def by_id_def matches_def
      matches_clause_def sort_by_single apply_limit_def doc_nomime_def)

lemma nomime_getFileStream:
  "getFileStream nomime_store ''000000000000000000000009'' = Inr ([10, 20, 30], toFileInfo doc_nomime)"
  unfolding getFileStream_def ObjectId_9 nomime_getFileInfo
  by (simp add: openDownloadStream_def nomime_store_def)

lemma nomime_listFiles: "listFiles nomime_store None None = [toFileInfo doc_nomime]"
  by (simp add: listFiles_def find_docs_def nomime_store_def matches_def
      matches_clause_def sort_by_single apply_limit_def)

lemma nomime_listFilesAdvanced:
  "items_of (listFilesAdvanced nomime_store default_params) = [toFileInfo doc_nomime]"
  by (simp add: listFilesAdvanced_def items_of_def default_params_def text_filter_def
      find_docs_def nomime_store_def matches_def matches_clause_def sort_by_single apply_limit_def)

lemma nomime_getFilesByChatId: "getFilesByChatId nomime_store ''c1'' = [toFileInfo doc_nomime]"
  by (simp add: getFilesByChatId_def find_docs_def nomime_store_def matches_def
      matches_clause_def sort_by_single apply_limit_def doc_nomime_def opt_get_def)

lemma nomime_renameFile:
  "renameFile demo_clock nomime_store ''000000000000000000000009'' rename_to_b =
     (Inr (toFileInfo doc_renamed), nomime_store\<lparr>files := [doc_renamed]\<rparr>)"
  by (simp add: renameFile_def ObjectId_9 findOne_def nomime_store_def by_id_def matches_def
      matches_clause_def doc_nomime_def doc_renamed_def rename_to_b_def demo_clock_def
      spread_def Let_def)

lemma nomime_dedup:
  "find_docs nomime_store (dedup_query (sha256 demo_env (buffer file_a)) (originalname file_a)) [] 0 1
     = [doc_nomime]"
  by (simp add: find_docs_def nomime_store_def dedup_query_def demo_env_def file_a_def
      demo_digest_file_a matches_def matches_clause_def sort_by_single apply_limit_def
      doc_nomime_def opt_get_def)

theorem projections_report_mimetype_witness:
  "opt_get (metadata doc_nomime) ''mimetype'' = None \<and>
   fi_mimetype (toFileInfo doc_nomime) = JStr ''application/octet-stream'' \<and>
   getFileInfo nomime_store ''000000000000000000000009'' = Inr (toFileInfo doc_nomime) \<and>
   getFileStream nomime_store ''000000000000000000000009'' = Inr ([10, 20, 30], toFileInfo doc_nomime) \<and>
   toFileInfo doc_nomime \<in> set (listFiles nomime_store None None) \<and>
   toFileInfo doc_nomime \<in> set (items_of (listFilesAdvanced nomime_store default_params)) \<and>
   toFileInfo doc_nomime \<in> set (getFilesByChatId nomime_store ''c1'') \<and>
   projection_of nomime_store (fi_id (toFileInfo doc_nomime)) (fi_mimetype (toFileInfo doc_nomime)) \<and>
   renameFile demo_clock nomime_store ''000000000000000000000009'' rename_to_b =
     (Inr (toFileInfo doc_renamed), nomime_store\<lparr>files := [doc_renamed]\<rparr>) \<and>
   projection_of (nomime_store\<lparr>files := [doc_renamed]\<rparr>)
     (fi_id (toFileInfo doc_renamed)) (fi_mimetype (toFileInfo doc_renamed)) \<and>
   validateFile demo_env file_a = None \<and>
   find_docs nomime_store (dedup_query (sha256 demo_env (buffer file_a)) (originalname file_a)) [] 0 1
     = [doc_nomime] \<and>
   (\<exists>r. uploadFile demo_env demo_clock None nomime_store (Some file_a) None = (Inr r, nomime_store) \<and>
        projection_of nomime_store (ur_id r) (ur_mimetype r))"
proof -
  have m: "opt_get (metadata doc_nomime) ''mimetype'' = None"
    by (simp add: doc_nomime_def opt_get_def)
  have mt: "fi_mimetype (toFileInfo doc_nomime) = JStr ''application/octet-stream''"
    by (simp add: toFileInfo_def js_or_def m)
  have v: "validateFile demo_env file_a = None"
    by (simp add: validateFile_def demo_env_def file_a_def)
  note T = projections_report_mimetype [where s = nomime_store
      and fileId = "''000000000000000000000009''" and limit = None and skip = None
      and params = default_params and chatId = "''c1''" and clk = demo_clock
      and payload = rename_to_b and e = demo_env and f = file_a and err = None and md = None]
  show ?thesis
    using T m mt v nomime_getFileInfo nomime_getFileStream nomime_listFiles
      nomime_listFilesAdvanced nomime_getFilesByChatId nomime_renameFile nomime_dedup
    by simp
qed

subsection \<open>Rename is a metadata-only update\<close>

text \<open>
  C6, as stated, fails for the content hash: the metadata patch is spread over the
  stored metadata, so a patch with a \<open>hash\<close> key replaces the stored digest.
\<close>

theorem renameFile_hash_counterexample:
  "map (\<lambda>d. opt_get (metadata d) ''hash'') (files nomime_store) = [Some (JStr ''0000003c'')] \<and>
   map (\<lambda>d. opt_get (metadata d) ''hash'')
     (files (snd (renameFile demo_clock nomime_store ''000000000000000000000009'' tamper_hash)))
     = [Some (JStr ''tampered'')]"
  by code_simp

lemma update_one_first:
  "\<forall>u\<in>set pre. \<not> P u \<Longrightarrow> P d \<Longrightarrow> update_one P f (pre @ d # post) = pre @ f d # post"
  by (induction pre) auto

lemma findOne_split:
  assumes "findOne s q = Some d"
  shows "\<exists>pre post. files s = pre @ d # post \<and> (\<forall>u\<in>set pre. \<not> matches q u) \<and> matches q d"
proof -
  from assms obtain ds where "filter (matches q) (files s) = d # ds"
    by (auto simp: findOne_def split: list.splits)
  then show ?thesis
    unfolding filter_eq_Cons_iff by blast
qed

lemma matches_by_id: "matches (by_id i) d \<longleftrightarrow> oid d = i"
  by (simp add: matches_def by_id_def matches_clause_def)


text \<open>
  C6, amended. A successful \<open>renameFile\<close> changes one document and no chunk record;
  the document keeps its id, its size and its upload date; its \<open>updatedAt\<close> is the
  current clock reading; its stored hash is unchanged unless the metadata patch has a
  \<open>hash\<close> key of its own, which then wins; and its filename changes only to a
  non-empty new name (an absent or empty one leaves it as it was).
\<close>

theorem renameFile_frame:
  assumes "renameFile clk s fileId payload = (Inr r, s')"
  shows "\<exists>i pre d d' post.
           ObjectId fileId = Some i \<and> files s = pre @ d # post \<and> files s' = pre @ d' # post \<and>
           chunks s' = chunks s \<and> r = toFileInfo d' \<and>
           oid d = i \<and> oid d' = oid d \<and> length_d d' = length_d d \<and> uploadDate d' = uploadDate d \<and>
           opt_get (metadata d') ''updatedAt'' = Some (JDate (clk 0)) \<and>
           opt_get (metadata d') ''hash'' =
             (case opt_get (pl_metadata payload) ''hash'' of
                None \<Rightarrow> opt_get (metadata d) ''hash'' | Some h \<Rightarrow> Some h) \<and>
           filename d' =
             (case pl_filename payload of
                None \<Rightarrow> filename d | Some n \<Rightarrow> if n \<noteq> [] then n else filename d)"
proof -
  from assms obtain i where i: "ObjectId fileId = Some i"
    by (auto simp: renameFile_def split: option.splits)
  with assms obtain d where d: "findOne s (by_id i) = Some d"
    by (auto simp: renameFile_def split: option.splits)
  define new_name where "new_name =
    (case pl_filename payload of None \<Rightarrow> None | Some n \<Rightarrow> if n \<noteq> [] then Some n else None)"
  define new_meta where "new_meta =
    (case pl_metadata payload of
       Some pm \<Rightarrow> (spread (metadata d) ++ pm)(''updatedAt'' \<mapsto> JDate (clk 0))
     | None \<Rightarrow> (spread (metadata d))(''updatedAt'' \<mapsto> JDate (clk 0)))"
  define set_fields where "set_fields =
    (\<lambda>x::doc. (case new_name of None \<Rightarrow> x | Some n \<Rightarrow> x\<lparr>filename := n\<rparr>)\<lparr>metadata := Some new_meta\<rparr>)"
  define d' where "d' = set_fields d"
  from findOne_split [OF d] obtain pre post where
    split: "files s = pre @ d # post" and pre: "\<forall>u\<in>set pre. \<not> matches (by_id i) u"
    and md: "matches (by_id i) d"
    by blast
  have upd: "update_one (matches (by_id i)) set_fields (files s) = pre @ d' # post"
    unfolding split d'_def by (rule update_one_first [OF pre md])
  have oid_d': "oid d' = oid d" and len: "length_d d' = length_d d"
    and date: "uploadDate d' = uploadDate d"
    by (simp_all add: d'_def set_fields_def split: option.splits)
  have find': "findOne (s\<lparr>files := pre @ d' # post\<rparr>) (by_id i) = Some d'"
    using pre md oid_d' by (simp add: findOne_def matches_by_id)
  have res: "renameFile clk s fileId payload = (Inr (toFileInfo d'), s\<lparr>files := pre @ d' # post\<rparr>)"
    using i d upd find'
    by (simp add: renameFile_def Let_def new_name_def [symmetric] new_meta_def [symmetric]
        set_fields_def [symmetric])
  with assms have r: "r = toFileInfo d'" and s': "s' = s\<lparr>files := pre @ d' # post\<rparr>"
    by simp_all
  have upd_at: "opt_get (metadata d') ''updatedAt'' = Some (JDate (clk 0))"
    by (simp add: d'_def set_fields_def opt_get_def new_meta_def split: option.splits)
  have hash: "opt_get (metadata d') ''hash'' =
             (case opt_get (pl_metadata payload) ''hash'' of
                None \<Rightarrow> opt_get (metadata d) ''hash'' | Some h \<Rightarrow> Some h)"
    by (simp add: d'_def set_fields_def new_meta_def map_add_def spread_def opt_get_def
        split: option.splits)
  have name: "filename d' =
             (case pl_filename payload of
                None \<Rightarrow> filename d | Some n \<Rightarrow> if n \<noteq> [] then n else filename d)"
    by (simp add: d'_def set_fields_def new_name_def split: option.splits)
  from md have "oid d = i" by (simp add: matches_by_id)
  with i split s' r oid_d' len date upd_at hash name show ?thesis
    by (intro exI [of _ i] exI [of _ pre] exI [of _ d] exI [of _ d'] exI [of _ post]) simp
qed

theorem renameFile_frame_witness:
  "renameFile demo_clock nomime_store ''000000000000000000000009'' rename_to_b =
     (Inr (toFileInfo doc_renamed), nomime_store\<lparr>files := [doc_renamed]\<rparr>) \<and>
   (\<exists>i pre d d' post.
      ObjectId ''000000000000000000000009'' = Some i \<and> files nomime_store = pre @ d # post \<and>
      files (nomime_store\<lparr>files := [doc_renamed]\<rparr>) = pre @ d' # post \<and>
      chunks (nomime_store\<lparr>files := [doc_renamed]\<rparr>) = chunks nomime_store \<and>
      toFileInfo doc_renamed = toFileInfo d' \<and>
      oid d = i \<and> oid d' = oid d \<and> length_d d' = length_d d \<and> uploadDate d' = uploadDate d \<and>
      opt_get (metadata d') ''updatedAt'' = Some (JDate (demo_clock 0)) \<and>
      opt_get (metadata d') ''hash'' =
        (case opt_get (pl_metadata rename_to_b) ''hash'' of
           None \<Rightarrow> opt_get (metadata d) ''hash'' | Some h \<Rightarrow> Some h) \<and>
      filename d' =
        (case pl_filename rename_to_b of
           None \<Rightarrow> filename d | Some n \<Rightarrow> if n \<noteq> [] then n else filename d))"
  by (intro conjI nomime_renameFile renameFile_frame [OF nomime_renameFile])

subsection \<open>Uploading the same content twice\<close>

















subsection \<open>Replace gives a new record\<close>


lemma from_hex_snoc:
  "from_hex acc (xs @ [c]) =
     (case from_hex acc xs of
        None \<Rightarrow> None
      | Some a \<Rightarrow> (case hex_value c of None \<Rightarrow> None | Some d \<Rightarrow> Some (16 * a + d)))"
  by (induction xs arbitrary: acc) (auto split: option.splits)

lemma length_to_hex: "length (to_hex k n) = k"
  by (induction k arbitrary: n) auto

lemma hex_value_digit: "d < 16 \<Longrightarrow> hex_value (hex_digit d) = Some d"
proof -
  assume "d < 16"
  then have "d = 0 \<or> d = 1 \<or> d = 2 \<or> d = 3 \<or> d = 4 \<or> d = 5 \<or> d = 6 \<or> d = 7 \<or> d = 8
      \<or> d = 9 \<or> d = 10 \<or> d = 11 \<or> d = 12 \<or> d = 13 \<or> d = 14 \<or> d = 15"
    by arith
  then show ?thesis
    by (elim disjE; hypsubst; code_simp)
qed

lemma from_hex_to_hex: "from_hex 0 (to_hex k n) = Some (n mod 16 ^ k)"
proof (induction k arbitrary: n)
  case 0
  show ?case by simp
next
  case (Suc k)
  have "16 * (n div 16 mod 16 ^ k) + n mod 16 = n mod (16 * 16 ^ k)"
    by (metis mod_mult2_eq)
  then show ?case
    by (simp add: from_hex_snoc Suc hex_value_digit)
qed

lemma ObjectId_toString: "i < 16 ^ 24 \<Longrightarrow> ObjectId (toString i) = Some i"
  by (simp add: ObjectId_def toString_def length_to_hex from_hex_to_hex)










subsection \<open>The text query in page mode\<close>

text \<open>
  The pattern \<open>escapeRegex\<close> builds stands for the query text itself, and in page mode
  every returned item satisfies the text condition: the defect shown for C3 is confined
  to the cursor branch.
\<close>

lemma unescape_plain: "c \<noteq> CHR 0x5C \<Longrightarrow> unescape (c # xs) = c # unescape xs"
  by (cases xs) auto

lemma unescape_escapeRegex: "unescape (escapeRegex s) = s"
  by (induction s) (auto simp: escapeRegex_def regex_special_def unescape_plain)

lemma matches_text_filter:
  assumes "q \<noteq> []" and "trim q \<noteq> []"
  shows "matches (text_filter (Some q) mt) d \<Longrightarrow> text_hit (trim q) d"
  using assms
  by (auto simp: text_filter_def matches_def matches_clause_def Let_def regex_i_test_def
      unescape_escapeRegex text_hit_def split: option.splits if_splits jsval.splits)

lemma page_mode_applies_text_query:
  assumes "p_cursor params = None" and "p_q params = Some q" and "q \<noteq> []" and "trim q \<noteq> []"
    and "r \<in> set (items_of (listFilesAdvanced s params))"
  shows "\<exists>d\<in>set (files s). r = toFileInfo d \<and> text_hit (trim q) d"
proof -
  from assms(1,5) obtain spec k n where
    "r \<in> set (map toFileInfo (find_docs s (text_filter (p_q params) (p_mimetype params)) spec k n))"
    by (auto simp: listFilesAdvanced_def Let_def items_of_def)
  then obtain d where d: "d \<in> set (find_docs s (text_filter (Some q) (p_mimetype params)) spec k n)"
    and r: "r = toFileInfo d"
    by (auto simp: assms(2))
  from d find_docs_subset have "d \<in> set (files s)"
    and "matches (text_filter (Some q) (p_mimetype params)) d" by blast+
  with r matches_text_filter [OF assms(3,4)] show ?thesis by blast
qed

subsection \<open>Walking both modes by size and by creation time\<close>

lemma sort_le_doc_key:
  assumes "sb \<noteq> UpdatedAt"
  shows "sort_le [(sort_field sb, direction so), (F_id, direction so)] a b
           \<longleftrightarrow> doc_key sb so a \<le> doc_key sb so b"
  using assms
  by (cases sb; cases so)
     (auto simp: sort_field_def direction_def sort_value_def bson_lt_def doc_key_def sort_num_def)

lemma insort_by_insort_key:
  "(\<And>a b. le a b \<longleftrightarrow> f a \<le> f b) \<Longrightarrow> insort_by le x xs = insort_key f x xs"
  by (induction xs) auto

lemma sort_by_sort_key:
  assumes "\<And>a b. le a b \<longleftrightarrow> f a \<le> f b"
  shows "sort_by le xs = sort_key f xs"
  by (induction xs) (simp_all add: sort_by_def sort_key_def insort_by_insort_key [OF assms])

lemma filter_after_nth:
  assumes "sorted (map f xs)" and "distinct (map f xs)" and "j < length xs"
  shows "filter (\<lambda>x. f (xs ! j) < f x) xs = drop (Suc j) xs"
proof -
  have low: "\<forall>x\<in>set (take (Suc j) xs). \<not> f (xs ! j) < f x"
  proof
    fix x assume "x \<in> set (take (Suc j) xs)"
    then obtain i where i: "i < Suc j" "i < length xs" "x = xs ! i"
      by (auto simp: in_set_conv_nth)
    then have "map f xs ! i \<le> map f xs ! j"
      using assms(1,3) by (intro sorted_nth_mono) auto
    then show "\<not> f (xs ! j) < f x" using i assms(3) by (simp add: not_less)
  qed
  have high: "\<forall>x\<in>set (drop (Suc j) xs). f (xs ! j) < f x"
  proof
    fix x assume "x \<in> set (drop (Suc j) xs)"
    then obtain i where i: "j < i" "i < length xs" "x = xs ! i"
      by (auto simp: in_set_conv_nth) (metis add_Suc_right less_add_Suc1 add.commute less_diff_conv)
    then have "map f xs ! j \<le> map f xs ! i"
      using assms(1) by (intro sorted_nth_mono) auto
    moreover have "map f xs ! j \<noteq> map f xs ! i"
      using nth_eq_iff_index_eq [OF assms(2), of j i] i by simp
    ultimately show "f (xs ! j) < f x" using i by simp
  qed
  have "filter (\<lambda>x. f (xs ! j) < f x) (take (Suc j) xs @ drop (Suc j) xs) = drop (Suc j) xs"
    unfolding filter_append using low high by (simp add: filter_empty_conv filter_id_conv)
  then show ?thesis by simp
qed

lemma matches_no_text_filter: "matches (text_filter None None) d"
  by (simp add: text_filter_def matches_def matches_clause_def)

lemma sorted_docs_sort_key:
  "sb \<noteq> UpdatedAt \<Longrightarrow> sorted_docs s sb so = sort_key (doc_key sb so) (files s)"
  unfolding sorted_docs_def by (rule sort_by_sort_key) (rule sort_le_doc_key)

lemma inj_on_doc_key:
  assumes "distinct (map oid xs)"
  shows "distinct (map (doc_key sb so) xs)"
proof -
  from assms have d: "distinct xs" and inj: "inj_on oid (set xs)"
    by (simp_all add: distinct_map)
  have "inj_on (doc_key sb so) (set xs)"
  proof (rule inj_onI)
    fix a b assume "a \<in> set xs" "b \<in> set xs" "doc_key sb so a = doc_key sb so b"
    then have "oid a = oid b" by (auto simp: doc_key_def split: if_splits)
    with inj \<open>a \<in> set xs\<close> \<open>b \<in> set xs\<close> show "a = b" by (auto dest: inj_onD)
  qed
  with d show ?thesis by (simp add: distinct_map)
qed

lemma sorted_docs_props:
  assumes "sb \<noteq> UpdatedAt" and "distinct (map oid (files s))"
  shows "sorted (map (doc_key sb so) (sorted_docs s sb so))"
    and "distinct (map (doc_key sb so) (sorted_docs s sb so))"
    and "set (sorted_docs s sb so) = set (files s)"
    and "length (sorted_docs s sb so) = length (files s)"
    and "distinct (map oid (sorted_docs s sb so))"
proof -
  let ?L = "sort_key (doc_key sb so) (files s)"
  have L: "sorted_docs s sb so = ?L" by (rule sorted_docs_sort_key [OF assms(1)])
  from assms(2) have d: "distinct (files s)" and inj: "inj_on oid (set (files s))"
    by (simp_all add: distinct_map)
  from inj_on_doc_key [OF assms(2), of sb so]
  have injk: "inj_on (doc_key sb so) (set (files s))" by (simp add: distinct_map)
  show "sorted (map (doc_key sb so) (sorted_docs s sb so))" by (simp add: L)
  show "distinct (map (doc_key sb so) (sorted_docs s sb so))"
    using d injk by (simp add: L distinct_map)
  show "set (sorted_docs s sb so) = set (files s)" by (simp add: L)
  show "length (sorted_docs s sb so) = length (files s)" by (simp add: L)
  show "distinct (map oid (sorted_docs s sb so))"
    using d inj by (simp add: L distinct_map)
qed

lemma findOne_unique:
  assumes "distinct (map oid (files s))" and "d \<in> set (files s)"
  shows "findOne s (by_id (oid d)) = Some d"
proof -
  have "distinct (map oid xs) \<Longrightarrow> d \<in> set xs \<Longrightarrow> filter (\<lambda>x. oid x = oid d) xs = [d]" for xs
    by (induction xs) (auto simp: filter_empty_conv image_iff)
  from this [OF assms] show ?thesis
    by (simp add: findOne_def matches_by_id [abs_def])
qed

lemma length_toString: "length (toString i) = 24"
  by (simp add: toString_def length_to_hex)

lemma matches_cursor_filter:
  assumes "sb \<noteq> UpdatedAt" and "ObjectId c = Some (oid d)" and "findOne s (by_id (oid d)) = Some d"
  shows "matches (cursor_filter s (text_filter None None) sb so c) x
           \<longleftrightarrow> doc_key sb so d < doc_key sb so x"
  using assms
  by (cases sb; cases so)
     (auto simp: cursor_filter_def text_filter_def matches_def matches_clause_def sort_field_def
        direction_def doc_key_def sort_num_def Let_def)

lemma page_mode_docs:
  assumes "0 < p"
  shows "listFilesAdvanced s ((walk_params n sb so)\<lparr>p_page := Some p, p_cursor := None\<rparr>) =
           PageResult (map toFileInfo (apply_limit n (drop (nat (p - 1) * n) (sorted_docs s sb so))))
             p (length (files s))"
  using assms
  by (simp add: listFilesAdvanced_def walk_params_def find_docs_def sorted_docs_def
      countDocuments_def matches_no_text_filter)

lemma cursor_mode_first:
  assumes "ObjectId c = None" and "c \<noteq> []"
  shows "listFilesAdvanced s ((walk_params n sb so)\<lparr>p_cursor := Some c\<rparr>) =
           (let docs = apply_limit n (sorted_docs s sb so)
            in CursorResult (map toFileInfo docs)
                 (if length docs = n \<and> docs \<noteq> [] then Some (toString (oid (last docs))) else None))"
  using assms
  by (simp add: listFilesAdvanced_def walk_params_def find_docs_def sorted_docs_def
      cursor_filter_def matches_no_text_filter Let_def)

lemma cursor_mode_next:
  assumes sb: "sb \<noteq> UpdatedAt" and wf: "wf_store s"
    and j: "j < length (sorted_docs s sb so)"
  shows "listFilesAdvanced s
           ((walk_params n sb so)\<lparr>p_cursor := Some (toString (oid (sorted_docs s sb so ! j)))\<rparr>) =
           (let docs = apply_limit n (drop (Suc j) (sorted_docs s sb so))
            in CursorResult (map toFileInfo docs)
                 (if length docs = n \<and> docs \<noteq> [] then Some (toString (oid (last docs))) else None))"
proof -
  let ?L = "sorted_docs s sb so"
  let ?d = "?L ! j"
  let ?c = "toString (oid ?d)"
  from wf have dist: "distinct (map oid (files s))" by (simp add: wf_store_def)
  note props = sorted_docs_props [OF sb dist, of so]
  have mem: "?d \<in> set (files s)" using j props(3) nth_mem by blast
  with wf have "oid ?d < next_oid s" "next_oid s < 16 ^ 24" by (simp_all add: wf_store_def)
  then have "oid ?d < 16 ^ 24" by linarith
  then have parse: "ObjectId ?c = Some (oid ?d)" by (rule ObjectId_toString)
  have ne: "?c \<noteq> []" using length_toString [of "oid ?d"] by auto
  have fo: "findOne s (by_id (oid ?d)) = Some ?d" by (rule findOne_unique [OF dist mem])
  have "filter (matches (cursor_filter s (text_filter None None) sb so ?c)) (files s)
          = filter (\<lambda>x. doc_key sb so ?d < doc_key sb so x) (files s)"
    by (rule filter_cong) (simp_all add: matches_cursor_filter [OF sb parse fo])
  then have "sort_by (sort_le [(sort_field sb, direction so), (F_id, direction so)])
          (filter (matches (cursor_filter s (text_filter None None) sb so ?c)) (files s))
          = sort_key (doc_key sb so) (filter (\<lambda>x. doc_key sb so ?d < doc_key sb so x) (files s))"
    by (simp add: sort_by_sort_key [OF sort_le_doc_key [OF sb]])
  also have "\<dots> = filter (\<lambda>x. doc_key sb so ?d < doc_key sb so x) ?L"
    by (simp add: filter_sort sorted_docs_sort_key [OF sb])
  also have "\<dots> = drop (Suc j) ?L"
    by (rule filter_after_nth [OF props(1) props(2) j])
  finally have docs: "find_docs s (cursor_filter s (text_filter None None) sb so ?c)
      [(sort_field sb, direction so), (F_id, direction so)] 0 n = apply_limit n (drop (Suc j) ?L)"
    by (simp add: find_docs_def)
  have c: "p_cursor ((walk_params n sb so)\<lparr>p_cursor := Some ?c\<rparr>) = Some ?c" by simp
  show ?thesis
    unfolding listFilesAdvanced_cursor_mode [OF c ne]
    by (simp add: walk_params_def docs Let_def)
qed

lemma fi_id_toFileInfo: "map fi_id (map toFileInfo xs) = map (\<lambda>d. toString (oid d)) xs"
  by (simp add: toFileInfo_def)

lemma page_walk_from:
  assumes n: "0 < n"
  shows "length (drop (k * n) (sorted_docs s sb so)) < fuel \<Longrightarrow>
         page_walk fuel s (walk_params n sb so) (int k + 1) =
           Some (map (\<lambda>d. toString (oid d)) (drop (k * n) (sorted_docs s sb so)))"
proof (induction fuel arbitrary: k)
  case 0
  then show ?case by simp
next
  case (Suc m)
  let ?D = "drop (k * n) (sorted_docs s sb so)"
  have page: "listFilesAdvanced s ((walk_params n sb so)\<lparr>p_page := Some (int k + 1), p_cursor := None\<rparr>)
      = PageResult (map toFileInfo (take n ?D)) (int k + 1) (length (files s))"
    using page_mode_docs [of "int k + 1" s n sb so] n by (simp add: apply_limit_def)
  show ?case
  proof (cases "take n ?D")
    case Nil
    with n have "?D = []" by (cases ?D) auto
    with page Nil show ?thesis by simp
  next
    case (Cons x xs)
    then have ne: "?D \<noteq> []" by auto
    have dd: "drop (Suc k * n) (sorted_docs s sb so) = drop n ?D"
      by (simp add: add.commute)
    have "length (drop (Suc k * n) (sorted_docs s sb so)) < m"
      unfolding dd using Suc.prems ne n by (cases ?D) auto
    from Suc.IH [OF this]
    have rec: "page_walk m s (walk_params n sb so) (int k + 1 + 1) =
        Some (map (\<lambda>d. toString (oid d)) (drop n ?D))"
      by (simp add: dd add.commute)
    have "map (\<lambda>d. toString (oid d)) (take n ?D) @ map (\<lambda>d. toString (oid d)) (drop n ?D)
        = map (\<lambda>d. toString (oid d)) ?D"
      by (metis append_take_drop_id map_append)
    with page Cons rec show ?thesis
      by (simp add: fi_id_toFileInfo [symmetric] del: drop_drop)
  qed
qed

lemma cursor_walk_from:
  assumes n: "0 < n" and sb: "sb \<noteq> UpdatedAt" and wf: "wf_store s"
  shows "k \<le> length (sorted_docs s sb so) \<Longrightarrow> length (sorted_docs s sb so) - k < fuel \<Longrightarrow>
         (if k = 0 then ObjectId c = None \<and> c \<noteq> []
          else c = toString (oid (sorted_docs s sb so ! (k - 1)))) \<Longrightarrow>
         cursor_walk fuel s (walk_params n sb so) c =
           Some (map (\<lambda>d. toString (oid d)) (drop k (sorted_docs s sb so)))"
proof (induction fuel arbitrary: k c)
  case 0
  then show ?case by simp
next
  case (Suc m)
  let ?L = "sorted_docs s sb so"
  let ?D = "drop k ?L"
  let ?docs = "take n ?D"
  have res: "listFilesAdvanced s ((walk_params n sb so)\<lparr>p_cursor := Some c\<rparr>) =
      CursorResult (map toFileInfo ?docs)
        (if length ?docs = n \<and> ?docs \<noteq> [] then Some (toString (oid (last ?docs))) else None)"
  proof (cases "k = 0")
    case True
    with Suc.prems(3) have "ObjectId c = None" "c \<noteq> []" by simp_all
    from cursor_mode_first [OF this, of s n sb so] n True show ?thesis
      by (simp add: apply_limit_def Let_def)
  next
    case False
    with Suc.prems(1) have j: "k - 1 < length ?L" by simp
    from False Suc.prems(3) have c: "c = toString (oid (?L ! (k - 1)))" by simp
    from cursor_mode_next [OF sb wf j, of n] n False show ?thesis
      unfolding c by (simp add: apply_limit_def Let_def)
  qed
  show ?case
  proof (cases "length ?docs = n")
    case True
    with n have ne: "?docs \<noteq> []" by auto
    from True n have kn: "k + n \<le> length ?L" by (simp add: min_def split: if_splits)
    have "last ?docs = ?docs ! (n - 1)"
      using ne True by (simp add: last_conv_nth)
    also have "\<dots> = ?L ! (k + n - 1)"
      using n kn by (simp add: add.commute)
    finally have last: "last ?docs = ?L ! (k + n - 1)" .
    have "cursor_walk m s (walk_params n sb so) (toString (oid (?L ! (k + n - 1)))) =
        Some (map (\<lambda>d. toString (oid d)) (drop (k + n) ?L))"
      using Suc.prems(2) kn n by (intro Suc.IH) auto
    moreover have "map (\<lambda>d. toString (oid d)) ?docs @ map (\<lambda>d. toString (oid d)) (drop (k + n) ?L)
        = map (\<lambda>d. toString (oid d)) ?D"
      by (metis append_take_drop_id map_append drop_drop add.commute)
    ultimately show ?thesis
      using res True ne last by (simp add: fi_id_toFileInfo [symmetric] del: drop_drop)
  next
    case False
    then have "?docs = ?D" by (simp add: min_def split: if_splits)
    with res False show ?thesis
      by (simp add: fi_id_toFileInfo [symmetric])
  qed
qed

text \<open>
  For the sort keys size and creation time, in either direction and with a positive
  limit, the page walk and the cursor walk (started with a cursor that does not parse)
  both end and return the ids of all documents, each once, in the same order. The
  defect shown for C5 is confined to the sort key last-update time.
\<close>

lemma walks_agree:
  assumes wf: "wf_store s" and n: "0 < n" and sb: "sb \<noteq> UpdatedAt"
    and c: "ObjectId c = None" "c \<noteq> []"
  shows "page_walk (Suc (length (files s))) s (walk_params n sb so) 1 =
           Some (map (\<lambda>d. toString (oid d)) (sorted_docs s sb so)) \<and>
         cursor_walk (Suc (length (files s))) s (walk_params n sb so) c =
           Some (map (\<lambda>d. toString (oid d)) (sorted_docs s sb so)) \<and>
         distinct (map (\<lambda>d. toString (oid d)) (sorted_docs s sb so)) \<and>
         set (map (\<lambda>d. toString (oid d)) (sorted_docs s sb so)) =
           (\<lambda>d. toString (oid d)) ` set (files s)"
proof -
  let ?L = "sorted_docs s sb so"
  from wf have dist: "distinct (map oid (files s))" by (simp add: wf_store_def)
  note props = sorted_docs_props [OF sb dist, of so]
  have pw: "page_walk (Suc (length (files s))) s (walk_params n sb so) 1 =
           Some (map (\<lambda>d. toString (oid d)) ?L)"
  proof -
    have "length (drop (0 * n) ?L) < Suc (length (files s))" by (simp add: props(4))
    from page_walk_from [OF n this] show ?thesis by (simp del: page_walk.simps)
  qed
  have cw: "cursor_walk (Suc (length (files s))) s (walk_params n sb so) c =
           Some (map (\<lambda>d. toString (oid d)) ?L)"
  proof -
    have a: "0 \<le> length ?L" by simp
    have b: "length ?L - 0 < Suc (length (files s))" by (simp add: props(4))
    have c': "if (0::nat) = 0 then ObjectId c = None \<and> c \<noteq> []
        else c = toString (oid (?L ! (0 - 1)))"
      using c by simp
    have "cursor_walk (Suc (length (files s))) s (walk_params n sb so) c =
        Some (map (\<lambda>d. toString (oid d)) (drop 0 ?L))"
      by (rule cursor_walk_from [OF n sb wf a b c'])
    then show ?thesis by (simp del: cursor_walk.simps)
  qed
  have inj: "inj_on (\<lambda>d. toString (oid d)) (set ?L)"
  proof (rule inj_onI)
    fix a b assume a: "a \<in> set ?L" and b: "b \<in> set ?L"
      and eq: "toString (oid a) = toString (oid b)"
    from a b props(3) have "a \<in> set (files s)" "b \<in> set (files s)" by simp_all
    with wf have "oid a < next_oid s" "oid b < next_oid s" "next_oid s < 16 ^ 24"
      by (simp_all add: wf_store_def)
    then have la: "oid a < 16 ^ 24" and lb: "oid b < 16 ^ 24" by linarith+
    note pa = ObjectId_toString [OF la] and pb = ObjectId_toString [OF lb]
    have "Some (oid a) = ObjectId (toString (oid a))" by (simp only: pa)
    also have "\<dots> = ObjectId (toString (oid b))" by (simp only: eq)
    also have "\<dots> = Some (oid b)" by (simp only: pb)
    finally have "oid a = oid b" by simp
    moreover from props(5) have "inj_on oid (set ?L)" by (simp add: distinct_map)
    ultimately show "a = b" using a b by (simp add: inj_on_def)
  qed
  have "distinct ?L" using props(5) by (simp add: distinct_map)
  with inj have d: "distinct (map (\<lambda>d. toString (oid d)) ?L)" by (simp add: distinct_map)
  from props(3) have "set (map (\<lambda>d. toString (oid d)) ?L) = (\<lambda>d. toString (oid d)) ` set (files s)"
    by simp
  with pw cw d show ?thesis by (intro conjI)
qed

end
